theory Spec2Isabelle
  imports Main "HOL-Library.Word"
begin

unbundle bit_operations_syntax

section \<open>Machine model\<close>

text \<open>
  The embedding fixes an LP64 target: \<^verbatim>\<open>size_t\<close> and \<^verbatim>\<open>uintptr_t\<close> are 64-bit
  unsigned words whose arithmetic wraps around, \<^verbatim>\<open>uint8_t\<close> is an 8-bit word, and a
  pointer is the word holding its address, with \<open>0\<close> for \<^verbatim>\<open>NULL\<close>.
\<close>

type_synonym size_t = "64 word"
type_synonym addr = "64 word"
type_synonym byte = "8 word"

text \<open>A region of memory: start address and length in bytes.\<close>

type_synonym region = "addr \<times> size_t"

definition region_ok :: "region \<Rightarrow> bool" where
  "region_ok r \<longleftrightarrow> fst r \<noteq> 0 \<and> unat (fst r) + unat (snd r) \<le> 2 ^ 63"

definition regions_disjoint :: "region \<Rightarrow> region \<Rightarrow> bool" where
  "regions_disjoint r s \<longleftrightarrow>
     unat (fst r) + unat (snd r) \<le> unat (fst s) \<or> unat (fst s) + unat (snd s) \<le> unat (fst r)"

fun pairwise_disjoint :: "region list \<Rightarrow> bool" where
  "pairwise_disjoint [] = True"
| "pairwise_disjoint (r # rs) = (list_all (regions_disjoint r) rs \<and> pairwise_disjoint rs)"

subsection \<open>Byte memory\<close>

text \<open>
  \<^verbatim>\<open>memset(p, v, n)\<close> and \<^verbatim>\<open>memcpy(dst, src, n)\<close> on a memory of bytes. An address \<open>x\<close>
  lies in the \<open>n\<close> bytes starting at \<open>p\<close> exactly when the wrapping difference \<open>x - p\<close> is
  below \<open>n\<close>.
\<close>

definition memset :: "(addr \<Rightarrow> byte) \<Rightarrow> addr \<Rightarrow> byte \<Rightarrow> size_t \<Rightarrow> (addr \<Rightarrow> byte)" where
  "memset m p v n = (\<lambda>x. if x - p < n then v else m x)"

definition memcpy :: "(addr \<Rightarrow> byte) \<Rightarrow> addr \<Rightarrow> addr \<Rightarrow> size_t \<Rightarrow> (addr \<Rightarrow> byte)" where
  "memcpy m dst src n = (\<lambda>x. if x - dst < n then m (src + (x - dst)) else m x)"

subsection \<open>The backend allocator\<close>

text \<open>
  A backend (\<^verbatim>\<open>malloc\<close>/\<^verbatim>\<open>realloc\<close>/\<^verbatim>\<open>free\<close>, or whatever \<^verbatim>\<open>Z_MALLOC\<close>,
  \<^verbatim>\<open>Z_REALLOC\<close> and \<^verbatim>\<open>Z_FREE\<close> are bound to) is an external collaborator. Its choices are
  an arbitrary sequence of answers: \<open>answers h k\<close> is the address the \<open>k\<close>-th allocating call
  returns, \<open>0\<close> meaning failure. \<open>calls\<close> counts the allocating calls made so far and \<open>live\<close>
  lists the regions handed out and not yet released, newest first. Releasing a region only
  takes it off \<open>live\<close>; the bytes stay as they are.
\<close>

record heap =
  answers :: "nat \<Rightarrow> addr"
  calls :: nat
  live :: "region list"

definition heap_malloc :: "heap \<Rightarrow> size_t \<Rightarrow> addr \<times> heap" where
  "heap_malloc h sz =
     (let p = answers h (calls h); h' = h\<lparr>calls := Suc (calls h)\<rparr>
      in if p = 0 then (0, h') else (p, h'\<lparr>live := (p, sz) # live h\<rparr>))"

definition heap_free :: "heap \<Rightarrow> addr \<Rightarrow> heap" where
  "heap_free h q = h\<lparr>live := filter (\<lambda>r. fst r \<noteq> q) (live h)\<rparr>"

text \<open>On failure \<^verbatim>\<open>realloc\<close> leaves the old region allocated.\<close>

definition heap_realloc :: "heap \<Rightarrow> addr \<Rightarrow> size_t \<Rightarrow> addr \<times> heap" where
  "heap_realloc h q sz =
     (let p = answers h (calls h); h' = h\<lparr>calls := Suc (calls h)\<rparr>
      in if p = 0 then (0, h')
         else (p, h'\<lparr>live := (p, sz) # filter (\<lambda>r. fst r \<noteq> q) (live h)\<rparr>))"

text \<open>The size a live region was allocated with (what \<^verbatim>\<open>realloc\<close> copies from).\<close>

fun live_size :: "region list \<Rightarrow> addr \<Rightarrow> size_t" where
  "live_size [] q = 0"
| "live_size (r # rs) q = (if fst r = q then snd r else live_size rs q)"

text \<open>
  Two backends exist side by side: the injected one behind the macros \<^verbatim>\<open>Z_MALLOC\<close>,
  \<^verbatim>\<open>Z_REALLOC\<close>, \<^verbatim>\<open>Z_FREE\<close> (zalloc.h:50-55, overridable by the includer), and the C
  library's own \<^verbatim>\<open>malloc\<close>, \<^verbatim>\<open>realloc\<close>, \<^verbatim>\<open>free\<close>. Every component state extends this
  record.
\<close>

record mach =
  zheap :: heap
  libc :: heap

definition Z_MALLOC :: "size_t \<Rightarrow> 'a mach_scheme \<Rightarrow> addr \<times> 'a mach_scheme" where
  "Z_MALLOC sz w = (let (p, h) = heap_malloc (zheap w) sz in (p, w\<lparr>zheap := h\<rparr>))"

definition Z_REALLOC :: "addr \<Rightarrow> size_t \<Rightarrow> 'a mach_scheme \<Rightarrow> addr \<times> 'a mach_scheme" where
  "Z_REALLOC q sz w = (let (p, h) = heap_realloc (zheap w) q sz in (p, w\<lparr>zheap := h\<rparr>))"

definition Z_FREE :: "addr \<Rightarrow> 'a mach_scheme \<Rightarrow> 'a mach_scheme" where
  "Z_FREE q w = w\<lparr>zheap := heap_free (zheap w) q\<rparr>"

definition libc_malloc :: "size_t \<Rightarrow> 'a mach_scheme \<Rightarrow> addr \<times> 'a mach_scheme" where
  "libc_malloc sz w = (let (p, h) = heap_malloc (libc w) sz in (p, w\<lparr>libc := h\<rparr>))"

definition libc_realloc :: "addr \<Rightarrow> size_t \<Rightarrow> 'a mach_scheme \<Rightarrow> addr \<times> 'a mach_scheme" where
  "libc_realloc q sz w = (let (p, h) = heap_realloc (libc w) q sz in (p, w\<lparr>libc := h\<rparr>))"

definition libc_free :: "addr \<Rightarrow> 'a mach_scheme \<Rightarrow> 'a mach_scheme" where
  "libc_free q w = w\<lparr>libc := heap_free (libc w) q\<rparr>"

section \<open>The arena (zalloc.h:177-343)\<close>

text \<open>
  \<^verbatim>\<open>struct zarena_block\<close> is \<^verbatim>\<open>next\<close>, \<^verbatim>\<open>capacity\<close>, \<^verbatim>\<open>used\<close> and the flexible array
  \<^verbatim>\<open>data\<close>, so \<^verbatim>\<open>sizeof(zarena_block)\<close> is 24 and \<^verbatim>\<open>data\<close> starts 24 bytes after the block's
  address \<open>baddr\<close>.

  The chain of blocks reachable from \<^verbatim>\<open>a->first\<close> through \<^verbatim>\<open>next\<close> is kept as a list with
  a cursor: \<open>passed\<close> holds the blocks from \<^verbatim>\<open>a->first\<close> up to, and not including, the
  block \<^verbatim>\<open>a->head\<close> points to; \<open>head\<close> is that block (\<open>None\<close> for \<^verbatim>\<open>NULL\<close>); \<open>ahead\<close>
  holds the blocks that follow it, so \<^verbatim>\<open>a->head->next\<close> is the first block of \<open>ahead\<close>.
  \<open>created\<close> is a history variable that is not part of the C struct: the capacities of
  the blocks in the order \<^verbatim>\<open>_zarena_new_block\<close> created them.
\<close>

record zarena_block =
  baddr :: addr
  capacity :: size_t
  used :: size_t

definition sizeof_zarena_block :: size_t where
  "sizeof_zarena_block = 24"

definition data :: "zarena_block \<Rightarrow> addr" where
  "data b = baddr b + sizeof_zarena_block"

definition ZARENA_MAX_ALIGN :: size_t where
  "ZARENA_MAX_ALIGN = 16"

definition ZARENA_DEFAULT_BLOCK_SIZE :: size_t where
  "ZARENA_DEFAULT_BLOCK_SIZE = 4096"

record arena_world = mach +
  passed :: "zarena_block list"
  head :: "zarena_block option"
  ahead :: "zarena_block list"
  total_alloc :: size_t
  mem :: "addr \<Rightarrow> byte"
  created :: "size_t list"

text \<open>
  \<^verbatim>\<open>_zarena_align_ptr\<close> (zalloc.h:188-192). The \<^verbatim>\<open>assert\<close> aborts the process when
  \<open>align\<close> has more than one bit set; that outcome is \<open>None\<close>, here and in every function
  that calls it.
\<close>

definition zarena_align_ptr :: "addr \<Rightarrow> size_t \<Rightarrow> addr option" where
  "zarena_align_ptr ptr align =
     (if align AND (align - 1) = 0 then Some ((ptr + (align - 1)) AND NOT (align - 1))
      else None)"

text \<open>\<^verbatim>\<open>_zarena_new_block\<close> (zalloc.h:194-203); the new block's \<^verbatim>\<open>next\<close> is \<^verbatim>\<open>NULL\<close>.\<close>

definition zarena_new_block :: "size_t \<Rightarrow> arena_world \<Rightarrow> zarena_block option \<times> arena_world" where
  "zarena_new_block cap w =
     (let total_sz = sizeof_zarena_block + cap;
          (b, w1) = Z_MALLOC total_sz w
      in if b = 0 then (None, w1)
         else (Some \<lparr>baddr = b, capacity = cap, used = 0\<rparr>,
               w1\<lparr>created := created w1 @ [cap]\<rparr>))"

text \<open>\<^verbatim>\<open>zarena_init\<close> (zalloc.h:205-208).\<close>

definition zarena_init :: "arena_world \<Rightarrow> arena_world" where
  "zarena_init w = w\<lparr>passed := [], head := None, ahead := [], total_alloc := 0\<rparr>"

text \<open>\<^verbatim>\<open>zarena_free\<close> (zalloc.h:210-220): every block of the chain goes back to the backend.\<close>

definition chain :: "arena_world \<Rightarrow> zarena_block list" where
  "chain w = passed w @ (case head w of None \<Rightarrow> [] | Some h \<Rightarrow> [h]) @ ahead w"

definition zarena_free :: "arena_world \<Rightarrow> arena_world" where
  "zarena_free w =
     (fold (\<lambda>b. Z_FREE (baddr b)) (chain w) w)
       \<lparr>passed := [], head := None, ahead := [], total_alloc := 0\<rparr>"

text \<open>\<^verbatim>\<open>zarena_reset\<close> (zalloc.h:229-239).\<close>

definition zarena_reset :: "arena_world \<Rightarrow> arena_world" where
  "zarena_reset w =
     (case map (\<lambda>b. b\<lparr>used := 0\<rparr>) (chain w) of
        [] \<Rightarrow> w\<lparr>passed := [], head := None, ahead := [], total_alloc := 0\<rparr>
      | b # bs \<Rightarrow> w\<lparr>passed := [], head := Some b, ahead := bs, total_alloc := 0\<rparr>)"

text \<open>
  \<^verbatim>\<open>zarena_alloc_align\<close> (zalloc.h:241-301), in its three steps. Step 3 (lines 277-300):
  a new block, linked in right after the current one, becomes the current block.
\<close>

definition zarena_alloc_align_new :: "size_t \<Rightarrow> size_t \<Rightarrow> arena_world \<Rightarrow> (addr \<times> arena_world) option" where
  "zarena_alloc_align_new sz align w =
     (let next_cap0 = (case head w of Some h \<Rightarrow> capacity h * 2 | None \<Rightarrow> ZARENA_DEFAULT_BLOCK_SIZE);
          next_cap = (if next_cap0 < sz + align then sz + align else next_cap0);
          (nb, w1) = zarena_new_block next_cap w
      in case nb of
           None \<Rightarrow> Some (0, w1)
         | Some b \<Rightarrow>
             (let w2 = (case head w1 of
                          Some h \<Rightarrow> w1\<lparr>passed := passed w1 @ [h], head := Some b\<rparr>
                        | None \<Rightarrow> w1\<lparr>passed := [], head := Some b, ahead := []\<rparr>)
              in case zarena_align_ptr (data b) align of
                   None \<Rightarrow> None
                 | Some start \<Rightarrow>
                     (let padding = start - data b
                      in Some (start, w2\<lparr>head := Some (b\<lparr>used := sz + padding\<rparr>),
                                         total_alloc := total_alloc w2 + sz\<rparr>))))"

text \<open>Step 2 (lines 261-275): move on to the block after the current one, if it is large enough.\<close>

definition zarena_alloc_align_next :: "size_t \<Rightarrow> size_t \<Rightarrow> arena_world \<Rightarrow> (addr \<times> arena_world) option" where
  "zarena_alloc_align_next sz align w =
     (case (head w, ahead w) of
        (Some h, next_blk # rest) \<Rightarrow>
          (case zarena_align_ptr (data next_blk) align of
             None \<Rightarrow> None
           | Some start \<Rightarrow>
               (let padding = start - data next_blk
                in if sz + padding \<le> capacity next_blk
                   then Some (start, w\<lparr>passed := passed w @ [h],
                                       head := Some (next_blk\<lparr>used := sz + padding\<rparr>),
                                       ahead := rest,
                                       total_alloc := total_alloc w + sz\<rparr>)
                   else zarena_alloc_align_new sz align w))
      | _ \<Rightarrow> zarena_alloc_align_new sz align w)"

text \<open>The whole function; step 1 (lines 245-259) bumps the cursor of the current block.\<close>

definition zarena_alloc_align :: "size_t \<Rightarrow> size_t \<Rightarrow> arena_world \<Rightarrow> (addr \<times> arena_world) option" where
  "zarena_alloc_align sz align w =
     (if sz = 0 then Some (0, w)
      else case head w of
        Some h \<Rightarrow>
          (let curr = data h + used h
           in case zarena_align_ptr curr align of
                None \<Rightarrow> None
              | Some nxt \<Rightarrow>
                  (let padding = nxt - curr; needed = sz + padding
                   in if used h + needed \<le> capacity h
                      then Some (nxt, w\<lparr>head := Some (h\<lparr>used := used h + needed\<rparr>),
                                        total_alloc := total_alloc w + sz\<rparr>)
                      else zarena_alloc_align_next sz align w))
      | None \<Rightarrow> zarena_alloc_align_next sz align w)"

text \<open>\<^verbatim>\<open>zarena_alloc\<close> (zalloc.h:303-306) and \<^verbatim>\<open>zarena_alloc_zero\<close> (zalloc.h:308-313).\<close>

definition zarena_alloc :: "size_t \<Rightarrow> arena_world \<Rightarrow> (addr \<times> arena_world) option" where
  "zarena_alloc sz w = zarena_alloc_align sz ZARENA_MAX_ALIGN w"

definition zarena_alloc_zero :: "size_t \<Rightarrow> arena_world \<Rightarrow> (addr \<times> arena_world) option" where
  "zarena_alloc_zero sz w =
     (case zarena_alloc_align sz ZARENA_MAX_ALIGN w of
        None \<Rightarrow> None
      | Some (p, w1) \<Rightarrow> Some (p, if p \<noteq> 0 then w1\<lparr>mem := memset (mem w1) p 0 sz\<rparr> else w1))"

text \<open>\<^verbatim>\<open>zarena_realloc\<close> (zalloc.h:315-342).\<close>

definition zarena_realloc :: "addr \<Rightarrow> size_t \<Rightarrow> size_t \<Rightarrow> arena_world \<Rightarrow> (addr \<times> arena_world) option" where
  "zarena_realloc old_ptr old_size new_size w =
     (if old_ptr = 0 then zarena_alloc new_size w
      else if new_size = 0 then Some (0, w)
      else if new_size \<le> old_size then Some (old_ptr, w)
      else
        (let relocate =
               (case zarena_alloc new_size w of
                  None \<Rightarrow> None
                | Some (new_ptr, w1) \<Rightarrow>
                    Some (new_ptr, if new_ptr \<noteq> 0
                                   then w1\<lparr>mem := memcpy (mem w1) new_ptr old_ptr old_size\<rparr>
                                   else w1))
         in case head w of
              Some h \<Rightarrow>
                (let data_end = data h + used h; diff = new_size - old_size
                 in if old_ptr + old_size = data_end \<and> used h + diff \<le> capacity h
                    then Some (old_ptr, w\<lparr>head := Some (h\<lparr>used := used h + diff\<rparr>),
                                          total_alloc := total_alloc w + diff\<rparr>)
                    else relocate)
            | None \<Rightarrow> relocate))"

text \<open>A freshly initialised arena on a machine whose injected backend answers with \<open>f\<close>.\<close>

definition fresh_heap :: "(nat \<Rightarrow> addr) \<Rightarrow> heap" where
  "fresh_heap f = \<lparr>answers = f, calls = 0, live = []\<rparr>"

definition fresh_arena :: "(nat \<Rightarrow> addr) \<Rightarrow> arena_world" where
  "fresh_arena f =
     \<lparr>zheap = fresh_heap f, libc = fresh_heap (\<lambda>_. 0),
      passed = [], head = None, ahead = [], total_alloc = 0, mem = (\<lambda>_. 0), created = []\<rparr>"

subsection \<open>Runs of arena operations and the vocabulary of their properties\<close>

text \<open>A sequence of \<^verbatim>\<open>zarena_alloc_align(a, s, al)\<close> calls, given as the pairs \<open>(s, al)\<close>;
  the result lists the returned pointers in call order. \<open>None\<close> is an abort.\<close>

fun alloc_align_seq :: "(size_t \<times> size_t) list \<Rightarrow> arena_world \<Rightarrow> (addr list \<times> arena_world) option" where
  "alloc_align_seq [] w = Some ([], w)"
| "alloc_align_seq ((s, a) # rs) w =
     (case zarena_alloc_align s a w of
        None \<Rightarrow> None
      | Some (p, w1) \<Rightarrow>
          (case alloc_align_seq rs w1 of
             None \<Rightarrow> None
           | Some (ps, w2) \<Rightarrow> Some (p # ps, w2)))"

definition is_pow2 :: "size_t \<Rightarrow> bool" where
  "is_pow2 a \<longleftrightarrow> (\<exists>k\<in>{..<64}. a = 2 ^ k)"

text \<open>
  The backend contract, read off the regions it has handed out: each is non-null and lies
  within the lower half of the address space (\<open>region_ok\<close>), and no two overlap.
\<close>

definition heap_valid :: "region list \<Rightarrow> bool" where
  "heap_valid rs \<longleftrightarrow> list_all region_ok rs \<and> pairwise_disjoint rs"

text \<open>A request whose size and alignment are far from wrapping around.\<close>

definition request_ok :: "size_t \<times> size_t \<Rightarrow> bool" where
  "request_ok r \<longleftrightarrow> fst r \<noteq> 0 \<and> is_pow2 (snd r) \<and> unat (fst r) + unat (snd r) < 2 ^ 63"

text \<open>The region a block was requested with, and the invariant of an arena that has only
  ever been bumped: the chain is the backend's allocation history, every cursor is within its
  block, and every region returned so far lies in the used part of some block.\<close>

definition block_region :: "zarena_block \<Rightarrow> region" where
  "block_region b = (baddr b, sizeof_zarena_block + capacity b)"

definition in_used :: "zarena_block \<Rightarrow> region \<Rightarrow> bool" where
  "in_used b r \<longleftrightarrow>
     unat (baddr b) + 24 \<le> unat (fst r) \<and>
     unat (fst r) + unat (snd r) \<le> unat (baddr b) + 24 + unat (used b)"

definition block_ok :: "zarena_block \<Rightarrow> bool" where
  "block_ok b \<longleftrightarrow> unat (used b) \<le> unat (capacity b) \<and> unat (capacity b) + 24 < 2 ^ 64"

definition within :: "region \<Rightarrow> region \<Rightarrow> bool" where
  "within r R \<longleftrightarrow> unat (fst R) \<le> unat (fst r) \<and>
     unat (fst r) + unat (snd r) \<le> unat (fst R) + unat (snd R)"

definition bump_inv :: "arena_world \<Rightarrow> region list \<Rightarrow> bool" where
  "bump_inv w regs \<longleftrightarrow>
     ahead w = [] \<and> (head w = None \<longrightarrow> passed w = []) \<and>
     (\<forall>k. answers (zheap w) k \<noteq> 0) \<and>
     map block_region (chain w) = rev (live (zheap w)) \<and>
     list_all block_ok (chain w) \<and>
     (\<forall>r\<in>set regs. \<exists>b\<in>set (chain w). in_used b r)"

text \<open>The capacity step 3 asks for (zalloc.h:277-278).\<close>

definition next_cap :: "size_t \<Rightarrow> size_t \<Rightarrow> arena_world \<Rightarrow> size_t" where
  "next_cap s a w =
     (let c0 = (case head w of Some h \<Rightarrow> capacity h * 2 | None \<Rightarrow> ZARENA_DEFAULT_BLOCK_SIZE)
      in if c0 < s + a then s + a else c0)"

subsection \<open>Arbitrary sequences of arena operations\<close>

datatype arena_op =
    Alloc size_t
  | AllocAlign size_t size_t
  | AllocZero size_t
  | Realloc addr size_t size_t
  | Reset

fun arena_step :: "arena_op \<Rightarrow> arena_world \<Rightarrow> (addr \<times> arena_world) option" where
  "arena_step (Alloc s) w = zarena_alloc s w"
| "arena_step (AllocAlign s a) w = zarena_alloc_align s a w"
| "arena_step (AllocZero s) w = zarena_alloc_zero s w"
| "arena_step (Realloc p old_size new_size) w = zarena_realloc p old_size new_size w"
| "arena_step Reset w = Some (0, zarena_reset w)"

text \<open>A run collects the returned pointers (\<open>0\<close> for \<^verbatim>\<open>zarena_reset\<close>, which returns nothing).\<close>

fun arena_run :: "arena_op list \<Rightarrow> arena_world \<Rightarrow> (addr list \<times> arena_world) option" where
  "arena_run [] w = Some ([], w)"
| "arena_run (op # ops) w =
     (case arena_step op w of
        None \<Rightarrow> None
      | Some (p, w1) \<Rightarrow>
          (case arena_run ops w1 of
             None \<Rightarrow> None
           | Some (ps, w2) \<Rightarrow> Some (p # ps, w2)))"

text \<open>The invariant behind geometric growth while no reset has happened: the current block
  is the one created last.\<close>

definition grow_inv :: "arena_world \<Rightarrow> bool" where
  "grow_inv w \<longleftrightarrow>
     ahead w = [] \<and>
     (case head w of None \<Rightarrow> created w = []
      | Some h \<Rightarrow> created w \<noteq> [] \<and> last (created w) = capacity h) \<and>
     sorted (created w)"

text \<open>A backend call was made during the step from \<open>w\<close> to \<open>w'\<close> and it failed.\<close>

definition backend_failed :: "arena_world \<Rightarrow> arena_world \<Rightarrow> bool" where
  "backend_failed w w' \<longleftrightarrow>
     calls (zheap w') \<noteq> calls (zheap w) \<and> answers (zheap w) (calls (zheap w)) = 0"

text \<open>
  The reading of ``live requested payload bytes'' that claim C4 spells out, following the
  spec's words: each pointer handed out is entered with the size requested for it, a
  \<^verbatim>\<open>realloc\<close> that returns a pointer replaces the entry of the old pointer by the new
  pointer with the new size, and a reset empties the ledger.
\<close>

fun ledger_step :: "arena_op \<Rightarrow> addr \<Rightarrow> (addr \<times> size_t) list \<Rightarrow> (addr \<times> size_t) list" where
  "ledger_step (Alloc s) p l = (if p = 0 then l else (p, s) # l)"
| "ledger_step (AllocAlign s a) p l = (if p = 0 then l else (p, s) # l)"
| "ledger_step (AllocZero s) p l = (if p = 0 then l else (p, s) # l)"
| "ledger_step (Realloc old os ns) p l =
     (if p = 0 then l else (p, ns) # filter (\<lambda>e. fst e \<noteq> old) l)"
| "ledger_step Reset p l = []"

fun ledger :: "arena_op list \<Rightarrow> addr list \<Rightarrow> (addr \<times> size_t) list \<Rightarrow> (addr \<times> size_t) list" where
  "ledger (op # ops) (p # ps) l = ledger ops ps (ledger_step op p l)"
| "ledger _ _ l = l"

definition live_requested_bytes :: "(addr \<times> size_t) list \<Rightarrow> nat" where
  "live_requested_bytes l = sum_list (map (\<lambda>e. unat (snd e)) l)"

text \<open>
  What the counter is in fact charged with. The test for growing in place is the one of
  zalloc.h:322-336: the old region ends at the cursor of the current block and the increase
  fits.
\<close>

definition realloc_in_place :: "arena_world \<Rightarrow> addr \<Rightarrow> size_t \<Rightarrow> size_t \<Rightarrow> bool" where
  "realloc_in_place w old os ns \<longleftrightarrow>
     (case head w of None \<Rightarrow> False
      | Some h \<Rightarrow> old + os = data h + used h \<and> used h + (ns - os) \<le> capacity h)"

fun granted :: "arena_op \<Rightarrow> arena_world \<Rightarrow> arena_world \<Rightarrow> size_t" where
  "granted (Alloc s) w w' = (if s = 0 \<or> backend_failed w w' then 0 else s)"
| "granted (AllocAlign s a) w w' = (if s = 0 \<or> backend_failed w w' then 0 else s)"
| "granted (AllocZero s) w w' = (if s = 0 \<or> backend_failed w w' then 0 else s)"
| "granted (Realloc old os ns) w w' =
     (if old = 0 then (if ns = 0 \<or> backend_failed w w' then 0 else ns)
      else if ns \<le> os then 0
      else if realloc_in_place w old os ns then ns - os
      else if backend_failed w w' then 0 else ns)"
| "granted Reset w w' = 0"

fun accounted :: "arena_op list \<Rightarrow> arena_world \<Rightarrow> size_t \<Rightarrow> size_t" where
  "accounted [] w t = t"
| "accounted (op # ops) w t =
     (case arena_step op w of
        None \<Rightarrow> t
      | Some (p, w1) \<Rightarrow> accounted ops w1 (if op = Reset then 0 else t + granted op w w1))"

text \<open>Backends used in the examples.\<close>

definition four_blocks :: "nat \<Rightarrow> addr" where
  "four_blocks k = (if k = 0 then 0x10000 else if k = 1 then 0x20000 else if k = 2 then 0x30000 else 0x40000)"

section \<open>The pool (zalloc.h:346-420)\<close>

text \<open>
  \<^verbatim>\<open>struct zpool\<close> with its six fields; \<open>pool_head\<close> is the field \<^verbatim>\<open>head\<close>, the head of the
  free list, and \<open>blocks\<close> is the address of the slab array. Free-list nodes are overlaid on
  the items and the slab array lives in backend memory, so both are read and written through
  \<open>cells\<close>, the memory seen as pointer-sized cells: \<open>cells w a\<close> is the pointer stored at
  address \<open>a\<close>. \<^verbatim>\<open>node->next\<close> is the cell at the node's address and \<^verbatim>\<open>blocks[i]\<close> the cell
  at \<open>blocks + 8 * i\<close>.
\<close>

record pool_world = mach +
  item_size :: size_t
  count_per_block :: size_t
  pool_head :: addr
  blocks :: addr
  block_count :: size_t
  block_cap :: size_t
  cells :: "addr \<Rightarrow> addr"

definition sizeof_ptr :: size_t where
  "sizeof_ptr = 8"

text \<open>\<^verbatim>\<open>zpool_init\<close> (zalloc.h:349-358).\<close>

definition zpool_init :: "size_t \<Rightarrow> size_t \<Rightarrow> pool_world \<Rightarrow> pool_world" where
  "zpool_init isz items_per_block w =
     (let align = sizeof_ptr;
          isz1 = (if isz < sizeof_ptr then sizeof_ptr else isz)
      in w\<lparr>item_size := (isz1 + (align - 1)) AND NOT (align - 1),
            count_per_block := (if items_per_block < 1 then 64 else items_per_block),
            pool_head := 0, blocks := 0, block_count := 0, block_cap := 0\<rparr>)"

text \<open>
  \<^verbatim>\<open>Z_REALLOC\<close> on the slab array: when the array moves, the backend copies the smaller of the
  old and the new size.
\<close>

definition copy_cells :: "(addr \<Rightarrow> addr) \<Rightarrow> addr \<Rightarrow> addr \<Rightarrow> size_t \<Rightarrow> (addr \<Rightarrow> addr)" where
  "copy_cells m dst src n = (\<lambda>x. if x - dst < n then m (src + (x - dst)) else m x)"

definition pool_realloc :: "addr \<Rightarrow> size_t \<Rightarrow> pool_world \<Rightarrow> addr \<times> pool_world" where
  "pool_realloc q sz w =
     (let old_sz = live_size (live (zheap w)) q;
          (p, w1) = Z_REALLOC q sz w
      in if p = 0 \<or> p = q then (p, w1)
         else (p, w1\<lparr>cells := copy_cells (cells w1) p q (min old_sz sz)\<rparr>))"

text \<open>
  The loop of zalloc.h:390-394 after \<open>n\<close> iterations: item \<open>i\<close> of the slab points to
  item \<open>i + 1\<close>, for \<open>i = 0, \<dots>, n - 1\<close>.
\<close>

fun link_items :: "nat \<Rightarrow> addr \<Rightarrow> size_t \<Rightarrow> (addr \<Rightarrow> addr) \<Rightarrow> (addr \<Rightarrow> addr)" where
  "link_items 0 block isz m = m"
| "link_items (Suc i) block isz m =
     (link_items i block isz m)(block + of_nat i * isz := block + (of_nat i + 1) * isz)"

text \<open>\<^verbatim>\<open>_zpool_grow\<close> (zalloc.h:370-399); lines 388-398 are \<open>zpool_grow_link\<close>.\<close>

definition zpool_grow_link :: "addr \<Rightarrow> pool_world \<Rightarrow> pool_world" where
  "zpool_grow_link block w =
     (let w1 = w\<lparr>cells := (cells w)(blocks w + block_count w * sizeof_ptr := block),
                  block_count := block_count w + 1\<rparr>;
          m = link_items (unat (count_per_block w1 - 1)) block (item_size w1) (cells w1);
          last = block + (count_per_block w1 - 1) * item_size w1
      in w1\<lparr>cells := m(last := pool_head w1), pool_head := block\<rparr>)"

definition zpool_grow :: "pool_world \<Rightarrow> pool_world" where
  "zpool_grow w =
     (let block_mem_size = item_size w * count_per_block w;
          (block, w1) = Z_MALLOC block_mem_size w
      in if block = 0 then w1
         else if block_count w1 = block_cap w1
         then (let new_cap = (if block_cap w1 = 0 then 8 else block_cap w1 * 2);
                   (new_list, w2) = pool_realloc (blocks w1) (new_cap * sizeof_ptr) w1
               in if new_list = 0 then Z_FREE block w2
                  else zpool_grow_link block (w2\<lparr>blocks := new_list, block_cap := new_cap\<rparr>))
         else zpool_grow_link block w1)"

text \<open>\<^verbatim>\<open>zpool_alloc\<close> (zalloc.h:401-411).\<close>

definition zpool_alloc :: "pool_world \<Rightarrow> addr \<times> pool_world" where
  "zpool_alloc w =
     (let w1 = (if pool_head w = 0 then zpool_grow w else w)
      in if pool_head w1 = 0 then (0, w1)
         else (let node = pool_head w1 in (node, w1\<lparr>pool_head := cells w1 node\<rparr>)))"

text \<open>\<^verbatim>\<open>zpool_recycle\<close> (zalloc.h:413-419).\<close>

definition zpool_recycle :: "addr \<Rightarrow> pool_world \<Rightarrow> pool_world" where
  "zpool_recycle ptr w =
     (if ptr = 0 then w
      else w\<lparr>cells := (cells w)(ptr := pool_head w), pool_head := ptr\<rparr>)"

text \<open>\<^verbatim>\<open>zpool_free\<close> (zalloc.h:360-368).\<close>

definition zpool_free :: "pool_world \<Rightarrow> pool_world" where
  "zpool_free w =
     (let w1 = fold (\<lambda>i. Z_FREE (cells w (blocks w + of_nat i * sizeof_ptr)))
                 [0 ..< unat (block_count w)] w;
          w2 = (if blocks w \<noteq> 0 then Z_FREE (blocks w) w1 else w1)
      in w2\<lparr>item_size := 0, count_per_block := 0, pool_head := 0, blocks := 0,
             block_count := 0, block_cap := 0\<rparr>)"

text \<open>A pool right after \<^verbatim>\<open>zpool_init\<close>, on a machine whose injected backend answers with \<open>f\<close>.\<close>

definition fresh_pool :: "(nat \<Rightarrow> addr) \<Rightarrow> size_t \<Rightarrow> size_t \<Rightarrow> pool_world" where
  "fresh_pool f isz n =
     zpool_init isz n
       \<lparr>zheap = fresh_heap f, libc = fresh_heap (\<lambda>_. 0),
        item_size = 0, count_per_block = 0, pool_head = 0, blocks = 0,
        block_count = 0, block_cap = 0, cells = (\<lambda>_. 0)\<rparr>"

text \<open>
  Vocabulary for \<^verbatim>\<open>zpool_alloc\<close> on an empty free list: the backend's answer to the slab
  request (its next allocating call), its answer to the request that grows the slab array
  (the call after that), and a state that differs from \<open>w\<close> in nothing but the number of
  calls the backend has seen.
\<close>

definition slab_answer :: "pool_world \<Rightarrow> addr" where
  "slab_answer w = answers (zheap w) (calls (zheap w))"

definition array_answer :: "pool_world \<Rightarrow> addr" where
  "array_answer w = answers (zheap w) (Suc (calls (zheap w)))"

definition backend_calls :: "nat \<Rightarrow> pool_world \<Rightarrow> pool_world" where
  "backend_calls n w = w\<lparr>zheap := (zheap w)\<lparr>calls := calls (zheap w) + n\<rparr>\<rparr>"

section \<open>The debug guard (zalloc.h:423-612)\<close>

text \<open>
  \<^verbatim>\<open>struct zdebug_header\<close>: two pointers, the origin (\<^verbatim>\<open>file\<close>, \<^verbatim>\<open>line\<close>), the payload size and
  the magic tag; 40 bytes on this target. The payload starts right after the header and the
  canary right after the payload.

  The guard's memory is seen through two views: \<open>hdrs w a\<close> is the header stored at address
  \<open>a\<close>, and \<open>bytes w a\<close> is the byte at address \<open>a\<close> of a payload or a canary. Memory that has
  never been written holds whatever was there, so both views are total. The views are kept
  apart: a write through one is not seen through the other.
\<close>

record zdebug_header =
  h_prev :: addr
  h_next :: addr
  h_file :: string
  h_size :: size_t
  h_line :: int
  h_magic :: "32 word"

definition sizeof_zdebug_header :: size_t where
  "sizeof_zdebug_header = 40"

definition ZDEBUG_MAGIC_ALIVE :: "32 word" where
  "ZDEBUG_MAGIC_ALIVE = 0x11223344"

definition ZDEBUG_MAGIC_FREED :: "32 word" where
  "ZDEBUG_MAGIC_FREED = 0xDEADDEAD"

definition ZDEBUG_CANARY_VAL :: byte where
  "ZDEBUG_CANARY_VAL = 0xBB"

definition ZDEBUG_CANARY_SIZE :: size_t where
  "ZDEBUG_CANARY_SIZE = 16"

text \<open>
  What \<^verbatim>\<open>ZDEBUG_LOG\<close> is called with. A message logged right before \<^verbatim>\<open>abort()\<close> is the
  \<open>Inl\<close> result of the aborting function; the others are appended to \<open>zlog\<close>.
\<close>

datatype zdebug_msg =
    OutOfMemory string int
  | BadRealloc addr string int
  | Corruption addr string int
  | DoubleFree addr string int
  | InvalidFree addr
  | BufferOverflow addr string int
  | LeaksDetected
  | Leak size_t addr string int
  | LeaksTotal size_t size_t

record debug_world = mach +
  hdrs :: "addr \<Rightarrow> zdebug_header"
  bytes :: "addr \<Rightarrow> byte"
  g_zdebug_head :: addr
  zlog :: "zdebug_msg list"

text \<open>\<^verbatim>\<open>_zdebug_add\<close> (zalloc.h:443-451).\<close>

definition zdebug_add :: "addr \<Rightarrow> debug_world \<Rightarrow> debug_world" where
  "zdebug_add h w =
     (let w1 = w\<lparr>hdrs := (hdrs w)(h := (hdrs w h)\<lparr>h_next := g_zdebug_head w, h_prev := 0\<rparr>)\<rparr>;
          w2 = (if g_zdebug_head w1 \<noteq> 0
                then w1\<lparr>hdrs := (hdrs w1)(g_zdebug_head w1 :=
                                   (hdrs w1 (g_zdebug_head w1))\<lparr>h_prev := h\<rparr>)\<rparr>
                else w1)
      in w2\<lparr>g_zdebug_head := h\<rparr>)"

text \<open>\<^verbatim>\<open>_zdebug_remove\<close> (zalloc.h:453-460), its two statements in order.\<close>

definition zdebug_remove :: "addr \<Rightarrow> debug_world \<Rightarrow> debug_world" where
  "zdebug_remove h w =
     (let w1 = (if h_prev (hdrs w h) \<noteq> 0
                then w\<lparr>hdrs := (hdrs w)(h_prev (hdrs w h) :=
                               (hdrs w (h_prev (hdrs w h)))\<lparr>h_next := h_next (hdrs w h)\<rparr>)\<rparr>
                else w\<lparr>g_zdebug_head := h_next (hdrs w h)\<rparr>)
      in if h_next (hdrs w1 h) \<noteq> 0
         then w1\<lparr>hdrs := (hdrs w1)(h_next (hdrs w1 h) :=
                         (hdrs w1 (h_next (hdrs w1 h)))\<lparr>h_prev := h_prev (hdrs w1 h)\<rparr>)\<rparr>
         else w1)"

text \<open>\<^verbatim>\<open>_zdebug_set_canary\<close> (zalloc.h:462-467) and \<^verbatim>\<open>_zdebug_check_canary\<close>
  (zalloc.h:469-478).\<close>

definition footer :: "addr \<Rightarrow> debug_world \<Rightarrow> addr" where
  "footer h w = h + sizeof_zdebug_header + h_size (hdrs w h)"

definition zdebug_set_canary :: "addr \<Rightarrow> debug_world \<Rightarrow> debug_world" where
  "zdebug_set_canary h w =
     w\<lparr>bytes := memset (bytes w) (footer h w) ZDEBUG_CANARY_VAL ZDEBUG_CANARY_SIZE\<rparr>"

definition zdebug_check_canary :: "addr \<Rightarrow> debug_world \<Rightarrow> bool" where
  "zdebug_check_canary h w =
     list_all (\<lambda>i. bytes w (footer h w + of_nat i) = ZDEBUG_CANARY_VAL)
       [0 ..< unat ZDEBUG_CANARY_SIZE]"

text \<open>\<^verbatim>\<open>zdebug_malloc_loc\<close> (zalloc.h:480-502). It calls \<^verbatim>\<open>malloc\<close>, not \<^verbatim>\<open>Z_MALLOC\<close>.\<close>

definition zdebug_malloc_loc :: "size_t \<Rightarrow> string \<Rightarrow> int \<Rightarrow> debug_world \<Rightarrow> addr \<times> debug_world" where
  "zdebug_malloc_loc sz file line w =
     (if sz = 0 then (0, w)
      else
        (let total_size = sizeof_zdebug_header + sz + ZDEBUG_CANARY_SIZE;
             (h, w1) = libc_malloc total_size w
         in if h = 0 then (0, w1\<lparr>zlog := zlog w1 @ [OutOfMemory file line]\<rparr>)
            else
              (let w2 = w1\<lparr>hdrs := (hdrs w1)(h := (hdrs w1 h)
                              \<lparr>h_file := file, h_line := line, h_size := sz,
                               h_magic := ZDEBUG_MAGIC_ALIVE\<rparr>)\<rparr>;
                   w3 = zdebug_set_canary h w2;
                   w4 = zdebug_add h w3
               in (h + sizeof_zdebug_header, w4))))"

text \<open>\<^verbatim>\<open>zdebug_calloc_loc\<close> (zalloc.h:504-509).\<close>

definition zdebug_calloc_loc :: "size_t \<Rightarrow> size_t \<Rightarrow> string \<Rightarrow> int \<Rightarrow> debug_world \<Rightarrow> addr \<times> debug_world" where
  "zdebug_calloc_loc count sz file line w =
     (let (ptr, w1) = zdebug_malloc_loc (count * sz) file line w
      in if ptr \<noteq> 0 then (ptr, w1\<lparr>bytes := memset (bytes w1) ptr 0 (count * sz)\<rparr>)
         else (ptr, w1))"

text \<open>\<^verbatim>\<open>zdebug_free\<close> (zalloc.h:552-579). It calls \<^verbatim>\<open>free\<close>, not \<^verbatim>\<open>Z_FREE\<close>.\<close>

definition zdebug_free :: "addr \<Rightarrow> debug_world \<Rightarrow> zdebug_msg + debug_world" where
  "zdebug_free ptr w =
     (if ptr = 0 then Inr w
      else
        (let h = ptr - sizeof_zdebug_header
         in if h_magic (hdrs w h) \<noteq> ZDEBUG_MAGIC_ALIVE
            then (if h_magic (hdrs w h) = ZDEBUG_MAGIC_FREED
                  then Inl (DoubleFree ptr (h_file (hdrs w h)) (h_line (hdrs w h)))
                  else Inl (InvalidFree ptr))
            else if \<not> zdebug_check_canary h w
            then Inl (BufferOverflow ptr (h_file (hdrs w h)) (h_line (hdrs w h)))
            else
              (let w1 = w\<lparr>hdrs := (hdrs w)(h := (hdrs w h)\<lparr>h_magic := ZDEBUG_MAGIC_FREED\<rparr>)\<rparr>;
                   w2 = zdebug_remove h w1
               in Inr (libc_free h w2))))"

text \<open>
  \<^verbatim>\<open>realloc\<close> on a guarded block: when the block moves, the C library copies the smaller of
  the old and the new size, which is the header and the bytes that follow it.
\<close>

definition guard_realloc :: "addr \<Rightarrow> size_t \<Rightarrow> debug_world \<Rightarrow> addr \<times> debug_world" where
  "guard_realloc h total_size w =
     (let old_size = live_size (live (libc w)) h;
          (p, w1) = libc_realloc h total_size w;
          n = min old_size total_size
      in if p = 0 \<or> p = h then (p, w1)
         else (p, w1\<lparr>hdrs := (hdrs w1)(p := hdrs w1 h),
                      bytes := memcpy (bytes w1) (p + sizeof_zdebug_header)
                                 (h + sizeof_zdebug_header)
                                 (if n < sizeof_zdebug_header then 0
                                  else n - sizeof_zdebug_header)\<rparr>))"

text \<open>\<^verbatim>\<open>zdebug_realloc_loc\<close> (zalloc.h:511-550). It calls \<^verbatim>\<open>realloc\<close>, not \<^verbatim>\<open>Z_REALLOC\<close>.\<close>

definition zdebug_realloc_loc ::
    "addr \<Rightarrow> size_t \<Rightarrow> string \<Rightarrow> int \<Rightarrow> debug_world \<Rightarrow> zdebug_msg + (addr \<times> debug_world)" where
  "zdebug_realloc_loc ptr sz file line w =
     (if ptr = 0 then Inr (zdebug_malloc_loc sz file line w)
      else if sz = 0
      then (case zdebug_free ptr w of Inl msg \<Rightarrow> Inl msg | Inr w1 \<Rightarrow> Inr (0, w1))
      else
        (let h = ptr - sizeof_zdebug_header
         in if h_magic (hdrs w h) \<noteq> ZDEBUG_MAGIC_ALIVE then Inl (BadRealloc ptr file line)
            else if \<not> zdebug_check_canary h w
            then Inl (Corruption ptr (h_file (hdrs w h)) (h_line (hdrs w h)))
            else
              (let w1 = zdebug_remove h w;
                   total_size = sizeof_zdebug_header + sz + ZDEBUG_CANARY_SIZE;
                   (new_h, w2) = guard_realloc h total_size w1
               in if new_h = 0 then Inr (0, zdebug_add h w2)
                  else
                    (let w3 = w2\<lparr>hdrs := (hdrs w2)(new_h := (hdrs w2 new_h)
                                    \<lparr>h_size := sz, h_file := file, h_line := line\<rparr>)\<rparr>;
                         w4 = zdebug_set_canary new_h w3;
                         w5 = zdebug_add new_h w4
                     in Inr (new_h + sizeof_zdebug_header, w5)))))"




text \<open>The guard before its first call: an empty live list, on a machine whose C library
  answers with \<open>f\<close> and whose injected backend answers with \<open>g\<close>.\<close>

definition fresh_guard :: "(nat \<Rightarrow> addr) \<Rightarrow> (nat \<Rightarrow> addr) \<Rightarrow> debug_world" where
  "fresh_guard f g =
     \<lparr>zheap = fresh_heap g, libc = fresh_heap f,
      hdrs = (\<lambda>_. \<lparr>h_prev = 0, h_next = 0, h_file = [], h_size = 0, h_line = 0, h_magic = 0\<rparr>),
      bytes = (\<lambda>_. 0), g_zdebug_head = 0, zlog = []\<rparr>"

subsection \<open>The live list and runs of guard operations\<close>

text \<open>The header that belongs to a user pointer (zalloc.h:519, 555).\<close>

definition header_of :: "addr \<Rightarrow> addr" where
  "header_of ptr = ptr - sizeof_zdebug_header"

text \<open>
  The list rooted at \<^verbatim>\<open>g_zdebug_head\<close>, read off the memory: \<open>hpath m p xs q\<close> says that
  following \<^verbatim>\<open>next\<close> from \<open>p\<close> visits exactly the non-null headers \<open>xs\<close> and arrives at
  \<open>q\<close>; \<open>back_links m q xs\<close> says that the \<^verbatim>\<open>prev\<close> of each header of \<open>xs\<close> is its
  predecessor, \<open>q\<close> for the first. A well-formed live list \<open>xs\<close> ends in \<^verbatim>\<open>NULL\<close>, its head
  has a null \<^verbatim>\<open>prev\<close>, and no header occurs twice.
\<close>

fun hpath :: "(addr \<Rightarrow> zdebug_header) \<Rightarrow> addr \<Rightarrow> addr list \<Rightarrow> addr \<Rightarrow> bool" where
  "hpath m p [] q \<longleftrightarrow> p = q"
| "hpath m p (x # xs) q \<longleftrightarrow> p = x \<and> x \<noteq> 0 \<and> hpath m (h_next (m x)) xs q"

fun back_links :: "(addr \<Rightarrow> zdebug_header) \<Rightarrow> addr \<Rightarrow> addr list \<Rightarrow> bool" where
  "back_links m q [] \<longleftrightarrow> True"
| "back_links m q (x # xs) \<longleftrightarrow> h_prev (m x) = q \<and> back_links m x xs"

definition live_list :: "debug_world \<Rightarrow> addr list \<Rightarrow> bool" where
  "live_list w xs \<longleftrightarrow>
     hpath (hdrs w) (g_zdebug_head w) xs 0 \<and> back_links (hdrs w) 0 xs \<and> distinct xs"

datatype guard_op =
    GMalloc size_t string int
  | GCalloc size_t size_t string int
  | GRealloc addr size_t string int
  | GFree addr

fun guard_step :: "guard_op \<Rightarrow> debug_world \<Rightarrow> zdebug_msg + (addr \<times> debug_world)" where
  "guard_step (GMalloc sz file line) w = Inr (zdebug_malloc_loc sz file line w)"
| "guard_step (GCalloc n sz file line) w = Inr (zdebug_calloc_loc n sz file line w)"
| "guard_step (GRealloc ptr sz file line) w = zdebug_realloc_loc ptr sz file line w"
| "guard_step (GFree ptr) w =
     (case zdebug_free ptr w of Inl msg \<Rightarrow> Inl msg | Inr w1 \<Rightarrow> Inr (0, w1))"



text \<open>
  A well-behaved run. The client passes to \<^verbatim>\<open>free\<close> and \<^verbatim>\<open>realloc\<close> only the null pointer
  or a pointer it holds. The C library, when a call reaches it, fails, or answers with an
  address that is not in use and whose payload address is not null, or (for \<^verbatim>\<open>realloc\<close>)
  resizes in place.
\<close>

definition fresh_answer :: "debug_world \<Rightarrow> bool" where
  "fresh_answer w \<longleftrightarrow>
     (let h = answers (libc w) (calls (libc w))
      in h = 0 \<or> (h \<notin> fst ` set (live (libc w)) \<and> h + sizeof_zdebug_header \<noteq> 0))"



text \<open>The invariant of well-behaved runs: \<open>xs\<close> is the live list, its members are the
  blocks the C library has handed out and the headers of the pointers the client holds, and
  each is tagged ALIVE.\<close>

definition guard_inv :: "debug_world \<Rightarrow> addr list \<Rightarrow> addr list \<Rightarrow> bool" where
  "guard_inv w l xs \<longleftrightarrow>
     live_list w xs \<and> fst ` set (live (libc w)) = set xs \<and>
     set l = (\<lambda>h. h + sizeof_zdebug_header) ` set xs \<and> distinct l \<and> 0 \<notin> set l \<and>
     (\<forall>h\<in>set xs. h_magic (hdrs w h) = ZDEBUG_MAGIC_ALIVE)"



definition three_blocks :: "nat \<Rightarrow> addr" where
  "three_blocks k = (if k = 0 then 0x1000 else if k = 1 then 0x2000 else if k = 2 then 0x3000 else 0)"

definition three_live :: debug_world where
  "three_live =
     snd (zdebug_malloc_loc 8 ''c.c'' 3
       (snd (zdebug_malloc_loc 8 ''b.c'' 2
         (snd (zdebug_malloc_loc 8 ''a.c'' 1 (fresh_guard three_blocks (\<lambda>_. 0)))))))"

section \<open>Bit-level and arithmetic facts\<close>

lemma unat_pow2: "k < 64 \<Longrightarrow> unat (2 ^ k :: 64 word) = 2 ^ k"
proof -
  assume k: "k < 64"
  have "(2 ^ k :: 64 word) = word_of_nat (2 ^ k)" by simp
  then have "unat (2 ^ k :: 64 word) = (2 ^ k) mod 2 ^ 64"
    by (simp only: unat_of_nat) simp
  moreover have "(2 :: nat) ^ k < 2 ^ 64" using k by (intro power_strict_increasing) simp_all
  ultimately show ?thesis by simp
qed

lemma unat_mask64: "k < 64 \<Longrightarrow> unat (mask k :: 64 word) = 2 ^ k - 1"
proof -
  assume k: "k < 64"
  have "(1 :: 64 word) \<le> 2 ^ k" using k unat_pow2 [OF k] by (simp add: word_le_nat_alt)
  then have "unat (2 ^ k - 1 :: 64 word) = unat (2 ^ k :: 64 word) - unat (1 :: 64 word)"
    by (rule unat_sub)
  then show ?thesis using unat_pow2 [OF k] by (simp add: mask_eq_decr_exp)
qed

lemma align_up_nat:
  fixes c :: nat
  assumes "0 < a"
  shows "c \<le> (c + (a - 1)) - (c + (a - 1)) mod a"
    and "(c + (a - 1)) - (c + (a - 1)) mod a < c + a"
    and "a dvd (c + (a - 1)) - (c + (a - 1)) mod a"
proof -
  have "(c + (a - 1)) mod a < a" using assms by simp
  then show "c \<le> (c + (a - 1)) - (c + (a - 1)) mod a" by linarith
  show "(c + (a - 1)) - (c + (a - 1)) mod a < c + a" using assms by simp
  show "a dvd (c + (a - 1)) - (c + (a - 1)) mod a" by simp
qed

lemma and_not_mask_push_drop: "(q :: 'a::len word) AND NOT (mask k) = push_bit k (drop_bit k q)"
  by (rule bit_eqI) (auto simp add: bit_simps)

lemma and_not_mask_sub: "(q :: 'a::len word) AND NOT (mask k) = q - take_bit k q"
  using bits_ident [of k q] by (simp add: and_not_mask_push_drop algebra_simps)

lemma unat_take_bit_mod: "unat (take_bit k (q :: 'a::len word)) = unat q mod 2 ^ k"
  by (subst unsigned_take_bit_eq) (simp add: take_bit_eq_mod)

lemma unat_and_not_mask: "unat ((q :: 'a::len word) AND NOT (mask k)) = unat q - unat q mod 2 ^ k"
proof -
  have le: "take_bit k q \<le> q"
    unfolding word_le_nat_alt unat_take_bit_mod by simp
  have "unat (q - take_bit k q) = unat q - unat (take_bit k q)"
    using le by (rule unat_sub)
  then show ?thesis
    by (simp only: and_not_mask_sub unat_take_bit_mod)
qed

lemma pow2_minus1: "(2 ^ k - 1 :: 'a::len word) = mask k"
  by (simp add: mask_eq_decr_exp)

lemma pow2_and_mask: "(2 ^ k :: 'a :: len word) AND mask k = 0"
  by (rule bit_eqI) (auto simp add: bit_simps)

lemma zarena_align_ptr_pow2:
  assumes k: "k < 64" and fit: "unat c + 2 ^ k \<le> 2 ^ 64"
  shows "\<exists>n. zarena_align_ptr c (2 ^ k) = Some n \<and> unat c \<le> unat n \<and> unat n < unat c + 2 ^ k
           \<and> 2 ^ k dvd unat n \<and> unat (n - c) = unat n - unat c"
proof -
  let ?q = "c + mask k"
  let ?n = "?q AND NOT (mask k)"
  have "unat c + unat (mask k :: 64 word) < 2 ^ LENGTH(64)"
    using fit unat_mask64 [OF k] by simp
  then have "unat ?q = unat c + unat (mask k :: 64 word)"
    by (simp only: unat_add_lem)
  then have uq: "unat ?q = unat c + (2 ^ k - 1)"
    by (simp only: unat_mask64 [OF k])
  have un: "unat ?n = (unat c + (2 ^ k - 1)) - (unat c + (2 ^ k - 1)) mod 2 ^ k"
    by (simp only: unat_and_not_mask uq)
  have 1: "unat c \<le> unat ?n" and 2: "unat ?n < unat c + 2 ^ k" and 3: "2 ^ k dvd unat ?n"
    unfolding un using align_up_nat [of "2 ^ k" "unat c"] by simp_all
  have 4: "unat (?n - c) = unat ?n - unat c"
    using 1 by (simp add: unat_sub word_le_nat_alt)
  have "zarena_align_ptr c (2 ^ k) = Some ?n"
    by (simp add: zarena_align_ptr_def pow2_and_mask pow2_minus1)
  with 1 2 3 4 show ?thesis by blast
qed

lemma unat_add64: "unat (x :: 64 word) + unat y < 2 ^ 64 \<Longrightarrow> unat (x + y) = unat x + unat y"
  by (simp add: unat_add_lem [THEN iffD1])

lemma bump_fits:
  assumes ok: "block_ok h" and reg: "region_ok (block_region h)"
    and k: "k < 64" and small: "unat s + 2 ^ k < 2 ^ 63"
  shows "\<exists>n. zarena_align_ptr (data h + used h) (2 ^ k) = Some n \<and>
           unat (n - (data h + used h)) < 2 ^ k \<and>
           unat n = unat (baddr h) + 24 + unat (used h) + unat (n - (data h + used h)) \<and>
           unat (s + (n - (data h + used h))) = unat s + unat (n - (data h + used h)) \<and>
           unat (used h + (s + (n - (data h + used h)))) =
             unat (used h) + unat s + unat (n - (data h + used h)) \<and>
           2 ^ k dvd unat n"
proof -
  have cap: "unat (capacity h) + 24 < 2 ^ 64" and u: "unat (used h) \<le> unat (capacity h)"
    using ok by (simp_all add: block_ok_def)
  have tot: "unat (sizeof_zarena_block + capacity h) = 24 + unat (capacity h)"
    using cap by (simp add: sizeof_zarena_block_def unat_add_lem [THEN iffD1])
  have top: "unat (baddr h) + 24 + unat (capacity h) \<le> 2 ^ 63"
    using reg tot by (simp add: region_ok_def block_region_def)
  have d: "unat (data h) = unat (baddr h) + 24"
    using top by (simp add: data_def sizeof_zarena_block_def unat_add_lem [THEN iffD1])
  have c: "unat (data h + used h) = unat (baddr h) + 24 + unat (used h)"
    using top u d by (simp add: unat_add_lem [THEN iffD1])
  have p2: "(2 :: nat) ^ k < 2 ^ 63" using small by simp
  have "unat (data h + used h) + 2 ^ k \<le> 2 ^ 64"
    using c top u p2 by simp
  from zarena_align_ptr_pow2 [OF k this]
  obtain n where n: "zarena_align_ptr (data h + used h) (2 ^ k) = Some n"
    and lo: "unat (data h + used h) \<le> unat n" and hi: "unat n < unat (data h + used h) + 2 ^ k"
    and dv: "2 ^ k dvd unat n" and pd: "unat (n - (data h + used h)) = unat n - unat (data h + used h)"
    by blast
  define pad where "pad = n - (data h + used h)"
  have 1: "unat pad < 2 ^ k" using pd lo hi by (simp add: pad_def)
  have 2: "unat n = unat (baddr h) + 24 + unat (used h) + unat pad" using pd lo c by (simp add: pad_def)
  have "unat s + unat pad < 2 ^ 64" using 1 small by simp
  then have 3: "unat (s + pad) = unat s + unat pad" by (rule unat_add64)
  have "unat (used h) + unat (s + pad) < 2 ^ 64" using 3 1 small u top by simp
  then have "unat (used h + (s + pad)) = unat (used h) + unat (s + pad)" by (rule unat_add64)
  then have 4: "unat (used h + (s + pad)) = unat (used h) + unat s + unat pad" using 3 by simp
  from n 1 2 3 4 dv show ?thesis unfolding pad_def by blast
qed

lemma zarena_alloc_align_next_none [simp]:
  "ahead w = [] \<Longrightarrow> zarena_alloc_align_next s a w = zarena_alloc_align_new s a w"
  by (simp add: zarena_alloc_align_next_def split: option.splits)

lemma zarena_alloc_align_new_exec:
  assumes b: "answers (zheap w) (calls (zheap w)) = b" and b0: "b \<noteq> 0"
    and al: "zarena_align_ptr (b + 24) a = Some n"
  shows "\<exists>w'. zarena_alloc_align_new s a w = Some (n, w') \<and>
           passed w' = (case head w of Some h \<Rightarrow> passed w @ [h] | None \<Rightarrow> []) \<and>
           head w' = Some \<lparr>baddr = b, capacity = next_cap s a w, used = s + (n - (b + 24))\<rparr> \<and>
           ahead w' = (case head w of Some h \<Rightarrow> ahead w | None \<Rightarrow> []) \<and>
           answers (zheap w') = answers (zheap w) \<and>
           live (zheap w') = (b, 24 + next_cap s a w) # live (zheap w) \<and>
           created w' = created w @ [next_cap s a w] \<and>
           total_alloc w' = total_alloc w + s"
  using assms
  by (simp add: zarena_alloc_align_new_def zarena_new_block_def Z_MALLOC_def heap_malloc_def
      Let_def next_cap_def data_def sizeof_zarena_block_def split: option.splits)

lemma next_cap_bounds:
  assumes small: "unat s + unat a < 2 ^ 63"
    and hd: "\<And>h. head w = Some h \<Longrightarrow> unat (capacity h) + 24 \<le> 2 ^ 63"
  shows "unat s + unat a \<le> unat (next_cap s a w)" and "unat (next_cap s a w) + 24 < 2 ^ 64"
proof -
  have sa: "unat (s + a) = unat s + unat a"
    using small by (intro unat_add64) simp
  define c0 where "c0 = (case head w of Some h \<Rightarrow> capacity h * 2 | None \<Rightarrow> ZARENA_DEFAULT_BLOCK_SIZE)"
  have c0: "unat c0 + 24 < 2 ^ 64"
  proof (cases "head w")
    case None
    then show ?thesis by (simp add: c0_def ZARENA_DEFAULT_BLOCK_SIZE_def)
  next
    case (Some h)
    have "unat (capacity h * 2) \<le> unat (capacity h) * 2"
      by (simp add: unat_word_ariths)
    with hd [OF Some] show ?thesis using Some by (simp add: c0_def)
  qed
  have nc: "next_cap s a w = (if c0 < s + a then s + a else c0)"
    by (simp add: next_cap_def c0_def)
  show "unat s + unat a \<le> unat (next_cap s a w)"
    unfolding nc using sa by (simp add: word_less_nat_alt)
  show "unat (next_cap s a w) + 24 < 2 ^ 64"
    unfolding nc using sa c0 small by simp
qed

lemma disjoint_within:
  "regions_disjoint R1 R2 \<Longrightarrow> within r1 R1 \<Longrightarrow> within r2 R2 \<Longrightarrow> regions_disjoint r1 r2"
  by (auto simp add: regions_disjoint_def within_def)

lemma in_used_within:
  "block_ok b \<Longrightarrow> in_used b r \<Longrightarrow> within r (block_region b)"
  by (auto simp add: block_ok_def in_used_def within_def block_region_def sizeof_zarena_block_def
      unat_add64)

lemma regions_disjoint_sym: "regions_disjoint r s \<Longrightarrow> regions_disjoint s r"
  by (auto simp add: regions_disjoint_def)

lemma live_suffix_step:
  "zarena_alloc_align s a w = Some (p, w') \<Longrightarrow>
     live (zheap w') = live (zheap w) \<or> (\<exists>x. live (zheap w') = x # live (zheap w))"
  by (auto simp add: zarena_alloc_align_def zarena_alloc_align_next_def zarena_alloc_align_new_def
      zarena_new_block_def Z_MALLOC_def heap_malloc_def Let_def
      split: option.splits if_splits list.splits prod.splits)

lemma heap_valid_tl: "heap_valid (x # rs) \<Longrightarrow> heap_valid rs"
  by (simp add: heap_valid_def)

lemma zarena_align_ptr_some: "\<exists>n. zarena_align_ptr c (2 ^ k) = Some n"
  by (simp add: zarena_align_ptr_def pow2_minus1 pow2_and_mask)

lemma bump_inv_blocks:
  assumes inv: "bump_inv w regs" and v: "heap_valid (live (zheap w))" and b: "b \<in> set (chain w)"
  shows "block_ok b" and "region_ok (block_region b)" and "block_region b \<in> set (live (zheap w))"
proof -
  from inv b show "block_ok b" by (simp add: bump_inv_def list_all_iff)
  from inv have "map block_region (chain w) = rev (live (zheap w))" by (simp add: bump_inv_def)
  then have "set (live (zheap w)) = block_region ` set (chain w)"
    by (metis set_map set_rev)
  with b show m: "block_region b \<in> set (live (zheap w))" by blast
  with v show "region_ok (block_region b)" by (simp add: heap_valid_def list_all_iff)
qed

lemma alloc_new_case:
  assumes inv: "bump_inv w regs"
    and k: "k < 64" and small: "unat s + 2 ^ k < 2 ^ 63"
    and run: "zarena_alloc_align_new s (2 ^ k) w = Some (p, w')"
    and valid: "heap_valid (live (zheap w'))"
  shows "bump_inv w' ((p, s) # regs) \<and> p \<noteq> 0 \<and> 2 ^ k dvd unat p \<and>
         list_all (regions_disjoint (p, s)) regs"
proof -
  define b where "b = answers (zheap w) (calls (zheap w))"
  define cap where "cap = next_cap s (2 ^ k) w"
  have b0: "b \<noteq> 0" using inv by (simp add: bump_inv_def b_def)
  have ah: "ahead w = []" using inv by (simp add: bump_inv_def)
  obtain n where al: "zarena_align_ptr (b + 24) (2 ^ k) = Some n"
    using zarena_align_ptr_some by blast
  from zarena_alloc_align_new_exec [OF b_def [symmetric] b0 al, of s] run
  have pn: "p = n"
    and pw: "passed w' = (case head w of Some h \<Rightarrow> passed w @ [h] | None \<Rightarrow> [])"
    and hw: "head w' = Some \<lparr>baddr = b, capacity = cap, used = s + (n - (b + 24))\<rparr>"
    and aw: "ahead w' = []"
    and an: "answers (zheap w') = answers (zheap w)"
    and lv: "live (zheap w') = (b, 24 + cap) # live (zheap w)"
    using ah by (auto simp add: cap_def split: option.splits)
  have v: "heap_valid (live (zheap w))" using valid lv by (simp add: heap_valid_def)
  let ?zb = "\<lparr>baddr = b, capacity = cap, used = 0\<rparr>"
  let ?nb = "\<lparr>baddr = b, capacity = cap, used = s + (n - (b + 24))\<rparr>"
  have hdcap: "unat (capacity h) + 24 \<le> 2 ^ 63" if "head w = Some h" for h
  proof -
    from that have "h \<in> set (chain w)" by (simp add: chain_def)
    from bump_inv_blocks [OF inv v this]
    show ?thesis
      by (auto simp add: block_ok_def region_ok_def block_region_def sizeof_zarena_block_def unat_add64)
  qed
  have up: "unat (2 ^ k :: size_t) = 2 ^ k" using k by (rule unat_pow2)
  from next_cap_bounds [of s "2 ^ k" w] small hdcap up
  have c1: "unat s + 2 ^ k \<le> unat cap" and c2: "unat cap + 24 < 2 ^ 64"
    by (simp_all add: cap_def)
  have ok0: "block_ok ?zb" using c2 by (simp add: block_ok_def)
  have reg: "region_ok (block_region ?zb)"
    using valid lv by (simp add: heap_valid_def block_region_def sizeof_zarena_block_def)
  from bump_fits [OF ok0 reg k small] al
  have pad: "unat (n - (b + 24)) < 2 ^ k"
    and un: "unat n = unat b + 24 + unat (n - (b + 24))"
    and us: "unat (s + (n - (b + 24))) = unat s + unat (n - (b + 24))"
    and dv: "2 ^ k dvd unat n"
    by (auto simp add: data_def sizeof_zarena_block_def)
  have okn: "block_ok ?nb" using c1 c2 us pad by (simp add: block_ok_def)
  have inu: "in_used ?nb (p, s)" using un us pn by (simp add: in_used_def)
  have ch: "chain w' = chain w @ [?nb]"
    using pw hw aw ah inv by (auto simp add: chain_def bump_inv_def split: option.splits)
  have brn: "block_region ?nb = (b, 24 + cap)"
    by (simp add: block_region_def sizeof_zarena_block_def)
  have inv': "bump_inv w' ((p, s) # regs)"
    unfolding bump_inv_def
  proof (intro conjI)
    show "ahead w' = []" by (rule aw)
    show "head w' = None \<longrightarrow> passed w' = []" using hw by simp
    show "\<forall>k. answers (zheap w') k \<noteq> 0" using inv an by (simp add: bump_inv_def)
    show "map block_region (chain w') = rev (live (zheap w'))"
      using inv ch lv brn by (simp add: bump_inv_def)
    show "list_all block_ok (chain w')" using inv ch okn by (simp add: bump_inv_def)
    show "\<forall>r\<in>set ((p, s) # regs). \<exists>b\<in>set (chain w'). in_used b r"
      using inv ch inu by (auto simp add: bump_inv_def)
  qed
  have p0: "p \<noteq> 0" using un pn by auto
  have dis: "regions_disjoint (p, s) r" if r: "r \<in> set regs" for r
  proof -
    from inv r obtain b' where b': "b' \<in> set (chain w)" and iu: "in_used b' r"
      by (auto simp add: bump_inv_def)
    from bump_inv_blocks [OF inv v b']
    have ok': "block_ok b'" and m: "block_region b' \<in> set (live (zheap w))" by simp_all
    from valid lv m have "regions_disjoint (b, 24 + cap) (block_region b')"
      by (simp add: heap_valid_def list_all_iff)
    moreover have "within (p, s) (b, 24 + cap)"
      using in_used_within [OF okn inu] brn by simp
    moreover have "within r (block_region b')" using ok' iu by (rule in_used_within)
    ultimately show ?thesis by (rule disjoint_within)
  qed
  from inv' p0 dv pn dis show ?thesis by (simp add: list_all_iff)
qed

lemma alloc_bump_case:
  assumes inv: "bump_inv w regs" and v: "heap_valid (live (zheap w))"
    and hd: "head w = Some h"
    and k: "k < 64" and small: "unat s + 2 ^ k < 2 ^ 63"
    and al: "zarena_align_ptr (data h + used h) (2 ^ k) = Some n"
    and fits: "used h + (s + (n - (data h + used h))) \<le> capacity h"
    and w': "w' = w\<lparr>head := Some (h\<lparr>used := used h + (s + (n - (data h + used h)))\<rparr>),
                     total_alloc := total_alloc w + s\<rparr>"
  shows "bump_inv w' ((n, s) # regs) \<and> n \<noteq> 0 \<and> 2 ^ k dvd unat n \<and>
         list_all (regions_disjoint (n, s)) regs"
proof -
  define pad where "pad = n - (data h + used h)"
  define h' where "h' = h\<lparr>used := used h + (s + pad)\<rparr>"
  have hin: "h \<in> set (chain w)" using hd by (simp add: chain_def)
  from bump_inv_blocks [OF inv v hin]
  have okh: "block_ok h" and regh: "region_ok (block_region h)" by simp_all
  from bump_fits [OF okh regh k small] al
  have un: "unat n = unat (baddr h) + 24 + unat (used h) + unat pad"
    and uu: "unat (used h + (s + pad)) = unat (used h) + unat s + unat pad"
    and dv: "2 ^ k dvd unat n"
    unfolding pad_def by auto
  have fit: "unat (used h) + unat s + unat pad \<le> unat (capacity h)"
    using fits uu by (simp add: word_le_nat_alt pad_def)
  have ah: "ahead w = []" using inv by (simp add: bump_inv_def)
  have ch: "chain w = passed w @ [h]" using hd ah by (simp add: chain_def)
  have ch': "chain w' = passed w @ [h']" using w' ah by (simp add: chain_def h'_def pad_def)
  have br: "block_region h' = block_region h" by (simp add: block_region_def h'_def)
  have okh': "block_ok h'" using okh fit uu by (simp add: block_ok_def h'_def)
  have inu: "in_used h' (n, s)" using un uu by (simp add: in_used_def h'_def)
  have grow: "in_used h' r" if "in_used h r" for r
    using that uu by (simp add: in_used_def h'_def)
  have inv': "bump_inv w' ((n, s) # regs)"
    unfolding bump_inv_def
  proof (intro conjI)
    show "ahead w' = []" using ah w' by simp
    show "head w' = None \<longrightarrow> passed w' = []" using w' by simp
    show "\<forall>k. answers (zheap w') k \<noteq> 0" using inv w' by (simp add: bump_inv_def)
    show "map block_region (chain w') = rev (live (zheap w'))"
      using inv ch ch' br w' by (simp add: bump_inv_def)
    show "list_all block_ok (chain w')" using inv ch ch' okh' by (simp add: bump_inv_def)
    show "\<forall>r\<in>set ((n, s) # regs). \<exists>b\<in>set (chain w'). in_used b r"
    proof
      fix r assume "r \<in> set ((n, s) # regs)"
      then consider "r = (n, s)" | "r \<in> set regs" by auto
      then show "\<exists>b\<in>set (chain w'). in_used b r"
      proof cases
        case 1
        then show ?thesis using inu ch' by auto
      next
        case 2
        with inv obtain b where "b \<in> set (chain w)" "in_used b r"
          by (auto simp add: bump_inv_def)
        then show ?thesis using ch ch' grow [of r] by auto
      qed
    qed
  qed
  have n0: "n \<noteq> 0" using un by auto
  have dis: "regions_disjoint (n, s) r" if r: "r \<in> set regs" for r
  proof -
    from inv r obtain b where b: "b \<in> set (chain w)" and iu: "in_used b r"
      by (auto simp add: bump_inv_def)
    from b ch consider "b = h" | "b \<in> set (passed w)" by auto
    then show ?thesis
    proof cases
      case 1
      then show ?thesis using iu un by (auto simp add: in_used_def regions_disjoint_def)
    next
      case 2
      have "pairwise_disjoint (rev (map block_region (chain w)))"
        using inv v by (simp add: bump_inv_def heap_valid_def)
      then have "regions_disjoint (block_region h) (block_region b)"
        using 2 ch by (simp add: list_all_iff)
      moreover have "within (n, s) (block_region h)"
        using in_used_within [OF okh' inu] br by simp
      moreover have "within r (block_region b)"
        using bump_inv_blocks(1) [OF inv v b] iu by (rule in_used_within)
      ultimately show ?thesis by (rule disjoint_within)
    qed
  qed
  from inv' n0 dv dis show ?thesis by (simp add: list_all_iff)
qed

lemma alloc_align_step:
  assumes inv: "bump_inv w regs"
    and s0: "s \<noteq> 0" and k: "k < 64" and small: "unat s + 2 ^ k < 2 ^ 63"
    and run: "zarena_alloc_align s (2 ^ k) w = Some (p, w')"
    and valid: "heap_valid (live (zheap w'))"
  shows "bump_inv w' ((p, s) # regs) \<and> p \<noteq> 0 \<and> 2 ^ k dvd unat p \<and>
         list_all (regions_disjoint (p, s)) regs"
proof -
  have v: "heap_valid (live (zheap w))"
    using live_suffix_step [OF run] valid by (auto dest: heap_valid_tl)
  have ah: "ahead w = []" using inv by (simp add: bump_inv_def)
  show ?thesis
  proof (cases "head w")
    case None
    with run s0 ah have "zarena_alloc_align_new s (2 ^ k) w = Some (p, w')"
      by (simp add: zarena_alloc_align_def)
    from alloc_new_case [OF inv k small this valid] show ?thesis .
  next
    case (Some h)
    obtain n where al: "zarena_align_ptr (data h + used h) (2 ^ k) = Some n"
      using zarena_align_ptr_some by blast
    show ?thesis
    proof (cases "used h + (s + (n - (data h + used h))) \<le> capacity h")
      case True
      with run s0 Some al
      have "p = n" and "w' = w\<lparr>head := Some (h\<lparr>used := used h + (s + (n - (data h + used h)))\<rparr>),
                     total_alloc := total_alloc w + s\<rparr>"
        by (auto simp add: zarena_alloc_align_def Let_def)
      with alloc_bump_case [OF inv v Some k small al True] show ?thesis by simp
    next
      case False
      with run s0 Some al ah have "zarena_alloc_align_new s (2 ^ k) w = Some (p, w')"
        by (simp add: zarena_alloc_align_def Let_def)
      from alloc_new_case [OF inv k small this valid] show ?thesis .
    qed
  qed
qed

lemma zarena_alloc_align_returns:
  "\<exists>p w'. zarena_alloc_align s (2 ^ k) w = Some (p, w')"
  by (simp add: zarena_alloc_align_def zarena_alloc_align_next_def zarena_alloc_align_new_def
      zarena_align_ptr_def pow2_minus1 pow2_and_mask Let_def
      split: option.splits list.splits prod.splits)

lemma alloc_align_seq_returns:
  "list_all (\<lambda>r. is_pow2 (snd r)) reqs \<Longrightarrow>
     \<exists>ps w'. alloc_align_seq reqs w = Some (ps, w') \<and> length ps = length reqs"
proof (induction reqs arbitrary: w)
  case Nil
  then show ?case by simp
next
  case (Cons r reqs)
  obtain s a where r: "r = (s, a)" by (cases r)
  from Cons.prems r obtain k where a: "a = 2 ^ k" by (auto simp add: is_pow2_def)
  from zarena_alloc_align_returns [of s k w] obtain p w1
    where 1: "zarena_alloc_align s a w = Some (p, w1)" using a by blast
  from Cons.IH [of w1] Cons.prems obtain ps w'
    where 2: "alloc_align_seq reqs w1 = Some (ps, w')" "length ps = length reqs" by auto
  from 1 2 r show ?case by simp
qed

lemma live_suffix_seq:
  "alloc_align_seq reqs w = Some (ps, w') \<Longrightarrow> \<exists>xs. live (zheap w') = xs @ live (zheap w)"
proof (induction reqs arbitrary: w ps)
  case Nil
  then show ?case by simp
next
  case (Cons r reqs)
  obtain s a where r: "r = (s, a)" by (cases r)
  from Cons.prems r obtain p w1 ps' where 1: "zarena_alloc_align s a w = Some (p, w1)"
    and 2: "alloc_align_seq reqs w1 = Some (ps', w')"
    by (auto split: option.splits)
  from Cons.IH [OF 2] obtain xs where "live (zheap w') = xs @ live (zheap w1)" by blast
  with live_suffix_step [OF 1] show ?case by auto
qed

lemma heap_valid_append: "heap_valid (xs @ ys) \<Longrightarrow> heap_valid ys"
  by (induction xs) (auto dest: heap_valid_tl)

lemma alloc_align_seq_inv:
  assumes "list_all request_ok reqs" and "bump_inv w regs"
    and "alloc_align_seq reqs w = Some (ps, w')" and "heap_valid (live (zheap w'))"
  shows "list_all (\<lambda>p. p \<noteq> 0) ps \<and>
         list_all2 (\<lambda>p r. unat p mod unat (snd r) = 0) ps reqs \<and>
         pairwise_disjoint (zip ps (map fst reqs)) \<and>
         (\<forall>r\<in>set regs. list_all (\<lambda>r'. regions_disjoint r' r) (zip ps (map fst reqs)))"
  using assms
proof (induction reqs arbitrary: w regs ps)
  case Nil
  then show ?case by simp
next
  case (Cons r reqs)
  obtain s a where r: "r = (s, a)" by (cases r)
  from Cons.prems(1) r obtain k where a: "a = 2 ^ k" and k: "k < 64"
    and s0: "s \<noteq> 0" and small0: "unat s + unat a < 2 ^ 63"
    by (auto simp add: request_ok_def is_pow2_def)
  have ua: "unat a = 2 ^ k" using a k by (simp add: unat_pow2)
  have small: "unat s + 2 ^ k < 2 ^ 63" using small0 ua by simp
  from Cons.prems(3) r obtain p w1 ps' where 1: "zarena_alloc_align s (2 ^ k) w = Some (p, w1)"
    and 2: "alloc_align_seq reqs w1 = Some (ps', w')" and ps: "ps = p # ps'"
    by (auto simp add: a split: option.splits)
  from live_suffix_seq [OF 2] Cons.prems(4) have v1: "heap_valid (live (zheap w1))"
    by (auto dest: heap_valid_append)
  from alloc_align_step [OF Cons.prems(2) s0 k small 1 v1]
  have inv1: "bump_inv w1 ((p, s) # regs)" and p0: "p \<noteq> 0" and dv: "2 ^ k dvd unat p"
    and dis: "list_all (regions_disjoint (p, s)) regs" by simp_all
  from Cons.prems(1) have "list_all request_ok reqs" by simp
  from Cons.IH [OF this inv1 2 Cons.prems(4)]
  have ih1: "list_all (\<lambda>p. p \<noteq> 0) ps'"
    and ih2: "list_all2 (\<lambda>p r. unat p mod unat (snd r) = 0) ps' reqs"
    and ih3: "pairwise_disjoint (zip ps' (map fst reqs))"
    and ih4: "\<forall>r\<in>set ((p, s) # regs). list_all (\<lambda>r'. regions_disjoint r' r) (zip ps' (map fst reqs))"
    by simp_all
  have later: "list_all (regions_disjoint (p, s)) (zip ps' (map fst reqs))"
    using ih4 by (auto simp add: list_all_iff intro: regions_disjoint_sym)
  have earlier: "\<forall>q\<in>set regs. list_all (\<lambda>r'. regions_disjoint r' q) (zip ps (map fst (r # reqs)))"
    using ih4 dis r ps by (auto simp add: list_all_iff intro: regions_disjoint_sym)
  from p0 dv ih1 ih2 ih3 later earlier show ?case
    using r ps ua by (simp add: mod_eq_0_iff_dvd)
qed

lemma fresh_bump_inv: "\<forall>k. f k \<noteq> 0 \<Longrightarrow> bump_inv (fresh_arena f) []"
  by (simp add: bump_inv_def fresh_arena_def fresh_heap_def chain_def)

lemmas arena_defs = zarena_alloc_align_def zarena_alloc_align_next_def zarena_alloc_align_new_def
  zarena_new_block_def zarena_align_ptr_def Z_MALLOC_def heap_malloc_def fresh_arena_def fresh_heap_def
  data_def sizeof_zarena_block_def ZARENA_DEFAULT_BLOCK_SIZE_def ZARENA_MAX_ALIGN_def Let_def

lemma is_pow2_1: "is_pow2 1"
  unfolding is_pow2_def by (rule bexI [of _ 0]) simp_all

lemma is_pow2_8: "is_pow2 8"
  unfolding is_pow2_def by (rule bexI [of _ 3]) simp_all

lemma is_pow2_16: "is_pow2 16"
  unfolding is_pow2_def by (rule bexI [of _ 4]) simp_all

text \<open>
  Claim C1, as amended. On a freshly initialised arena, take any sequence of
  \<^verbatim>\<open>zarena_alloc_align(s_i, a_i)\<close> calls with \<open>s_i > 0\<close>, \<open>a_i\<close> a power of two and
  \<open>s_i + a_i < 2^63\<close>, and a backend that never fails. Every call returns. If the blocks the
  backend handed out are non-null, lie within the lower half of the address space and do not
  overlap, then every returned address \<open>p_i\<close> is non-null, \<open>p_i mod a_i = 0\<close>, and the regions
  \<open>[p_i, p_i + s_i)\<close> are pairwise disjoint.
\<close>

theorem arena_bump_correct:
  assumes "list_all request_ok reqs" and "\<forall>k. f k \<noteq> 0"
  shows "\<exists>ps w. alloc_align_seq reqs (fresh_arena f) = Some (ps, w) \<and> length ps = length reqs \<and>
           (heap_valid (live (zheap w)) \<longrightarrow>
              list_all (\<lambda>p. p \<noteq> 0) ps \<and>
              list_all2 (\<lambda>p r. unat p mod unat (snd r) = 0) ps reqs \<and>
              pairwise_disjoint (zip ps (map fst reqs)))"
proof -
  from assms(1) have "list_all (\<lambda>r. is_pow2 (snd r)) reqs"
    by (simp add: list_all_iff request_ok_def)
  from alloc_align_seq_returns [OF this, of "fresh_arena f"] obtain ps w
    where run: "alloc_align_seq reqs (fresh_arena f) = Some (ps, w)" and len: "length ps = length reqs"
    by blast
  from alloc_align_seq_inv [OF assms(1) fresh_bump_inv [OF assms(2)] run] run len
  show ?thesis by simp
qed

theorem arena_bump_correct_witness:
  "list_all request_ok [(100, 16), (5000, 8), (10, 1)] \<and>
   (\<forall>k. (if k = 0 then 0x1000 else 0x4000 :: addr) \<noteq> 0) \<and>
   map_option (\<lambda>r. (fst r, live (zheap (snd r))))
     (alloc_align_seq [(100, 16), (5000, 8), (10, 1)]
        (fresh_arena (\<lambda>k. if k = 0 then 0x1000 else 0x4000)))
     = Some ([0x1020, 0x4018, 0x53A0], [(0x4000, 0x2018), (0x1000, 0x1018)]) \<and>
   heap_valid [(0x4000, 0x2018), (0x1000, 0x1018)] \<and>
   list_all2 (\<lambda>p r. unat p mod unat (snd r) = 0) [0x1020, 0x4018, 0x53A0 :: addr]
     [(100, 16), (5000, 8), (10, 1 :: size_t) :: size_t \<times> size_t] \<and>
   pairwise_disjoint (zip [0x1020, 0x4018, 0x53A0] [100, 5000, 10])"
proof -
  let ?reqs = "[(100, 16), (5000, 8), (10, 1)] :: (size_t \<times> size_t) list"
  let ?f = "\<lambda>k :: nat. if k = 0 then 0x1000 else 0x4000 :: addr"
  have h1: "list_all request_ok ?reqs"
    by (simp add: request_ok_def is_pow2_1 is_pow2_8 is_pow2_16)
  have h2: "\<forall>k. ?f k \<noteq> 0" by simp
  have run: "map_option (\<lambda>r. (fst r, live (zheap (snd r)))) (alloc_align_seq ?reqs (fresh_arena ?f))
     = Some ([0x1020, 0x4018, 0x53A0], [(0x4000, 0x2018), (0x1000, 0x1018)])"
    by (simp add: arena_defs)
  have v: "heap_valid [(0x4000, 0x2018), (0x1000, 0x1018)]"
    by (simp add: heap_valid_def region_ok_def regions_disjoint_def)
  from arena_bump_correct [OF h1 h2] obtain ps w
    where r: "alloc_align_seq ?reqs (fresh_arena ?f) = Some (ps, w)"
      and c: "heap_valid (live (zheap w)) \<longrightarrow>
              list_all (\<lambda>p. p \<noteq> 0) ps \<and>
              list_all2 (\<lambda>p r. unat p mod unat (snd r) = 0) ps ?reqs \<and>
              pairwise_disjoint (zip ps (map fst ?reqs))"
    by blast
  from run r have ps: "ps = [0x1020, 0x4018, 0x53A0]"
    and lv: "live (zheap w) = [(0x4000, 0x2018), (0x1000, 0x1018)]" by simp_all
  from c v have "list_all2 (\<lambda>p r. unat p mod unat (snd r) = 0) ps ?reqs"
    and "pairwise_disjoint (zip ps (map fst ?reqs))"
    unfolding lv by blast+
  with h1 h2 run v show ?thesis unfolding ps by simp
qed

text \<open>
  Claim C1 as stated asks only for \<open>s_i > 0\<close> and \<open>a_i\<close> a power of two. The size
  \<open>2^64 - 50\<close> makes \<^verbatim>\<open>a->head->used + needed\<close> (zalloc.h:253) wrap around, the cursor moves
  back from 100 to 50, and the third region lies inside the first, while the backend has
  handed out one well-formed block and has not failed.
\<close>

theorem arena_bump_overlap_counterexample:
  "list_all (\<lambda>r. fst r \<noteq> 0 \<and> is_pow2 (snd r))
     ([(100, 1), (0xFFFFFFFFFFFFFFCE, 1), (10, 1)] :: (size_t \<times> size_t) list) \<and>
   map_option (\<lambda>r. (fst r, live (zheap (snd r))))
     (alloc_align_seq [(100, 1), (0xFFFFFFFFFFFFFFCE, 1), (10, 1)] (fresh_arena (\<lambda>_. 0x1000)))
     = Some ([0x1018, 0x107C, 0x104A], [(0x1000, 0x1018)]) \<and>
   heap_valid [(0x1000, 0x1018)] \<and>
   \<not> pairwise_disjoint (zip [0x1018, 0x107C, 0x104A] [100, 0xFFFFFFFFFFFFFFCE, 10])"
  by (simp add: arena_defs is_pow2_1 heap_valid_def region_ok_def regions_disjoint_def)

section \<open>Arena: frame of a resize to zero\<close>

text \<open>
  Claim C10. For a non-null \<open>old_ptr\<close>, \<^verbatim>\<open>zarena_realloc(a, old_ptr, old_size, 0)\<close> returns
  the null pointer and leaves the whole state as it was: every block with its cursor, the
  chain, the current block, the counter \<open>total_alloc\<close>, the bytes and the backend.
\<close>

theorem zarena_realloc_zero_frame:
  "old_ptr \<noteq> 0 \<Longrightarrow> zarena_realloc old_ptr old_size 0 w = Some (0, w)"
  by (simp add: zarena_realloc_def)

theorem zarena_realloc_zero_frame_witness:
  "(24 :: addr) \<noteq> 0 \<and>
   zarena_realloc 24 8 0 (fresh_arena (\<lambda>_. 4096)) = Some (0, fresh_arena (\<lambda>_. 4096))"
  using zarena_realloc_zero_frame [of 24 8 "fresh_arena (\<lambda>_. 4096)"] by simp

section \<open>Arena: capacities in creation order\<close>

lemma double_le: "unat (c :: size_t) < 2 ^ 63 \<Longrightarrow> c \<le> c * 2"
  by (simp add: word_le_nat_alt unat_word_ariths)

lemma next_cap_ge:
  assumes "head w = Some h" "unat (capacity h) < 2 ^ 63"
  shows "capacity h \<le> next_cap s a w"
  using assms double_le [of "capacity h"] by (auto simp add: next_cap_def Let_def)

lemma alloc_new_shape:
  assumes "zarena_alloc_align_new s a w = Some (p, w')"
  shows "(backend_failed w w' \<and> p = 0 \<and> passed w' = passed w \<and> head w' = head w \<and> ahead w' = ahead w \<and>
          created w' = created w \<and> total_alloc w' = total_alloc w) \<or>
         (\<not> backend_failed w w' \<and>
          (\<exists>b u. head w' = Some \<lparr>baddr = b, capacity = next_cap s a w, used = u\<rparr>) \<and>
          created w' = created w @ [next_cap s a w] \<and>
          ahead w' = (case head w of None \<Rightarrow> [] | Some h \<Rightarrow> ahead w) \<and>
          total_alloc w' = total_alloc w + s)"
  using assms
  by (auto simp add: zarena_alloc_align_new_def zarena_new_block_def Z_MALLOC_def heap_malloc_def
      backend_failed_def next_cap_def Let_def split: option.splits if_splits)

lemma alloc_align_shape:
  assumes "zarena_alloc_align s a w = Some (p, w')" and "ahead w = []"
  shows "w' = w \<and> s = 0 \<or>
         (\<exists>h u. head w = Some h \<and> w' = w\<lparr>head := Some (h\<lparr>used := u\<rparr>), total_alloc := total_alloc w + s\<rparr>) \<or>
         zarena_alloc_align_new s a w = Some (p, w')"
  using assms
  by (auto simp add: zarena_alloc_align_def Let_def split: option.splits if_splits)

lemma sorted_le_last: "sorted xs \<Longrightarrow> x \<in> set xs \<Longrightarrow> x \<le> last (xs :: 'a::linorder list)"
  by (induction xs) auto

lemma zarena_alloc_align_grow:
  assumes inv: "grow_inv w" and run: "zarena_alloc_align s a w = Some (p, w')"
    and small: "list_all (\<lambda>c. unat c < 2 ^ 63) (created w')"
  shows "grow_inv w'"
proof -
  have ah: "ahead w = []" using inv by (simp add: grow_inv_def)
  from alloc_align_shape [OF run ah]
  consider "w' = w" | h u where "head w = Some h"
      "w' = w\<lparr>head := Some (h\<lparr>used := u\<rparr>), total_alloc := total_alloc w + s\<rparr>"
    | "zarena_alloc_align_new s a w = Some (p, w')" by blast
  then show ?thesis
  proof cases
    case 1
    then show ?thesis using inv by simp
  next
    case 2
    then show ?thesis using inv by (auto simp add: grow_inv_def split: option.splits)
  next
    case 3
    from alloc_new_shape [OF 3] show ?thesis
    proof (elim disjE conjE exE)
      assume "head w' = head w" "ahead w' = ahead w" "created w' = created w"
      then show ?thesis using inv by (auto simp add: grow_inv_def split: option.splits)
    next
      fix b u
      assume hd: "head w' = Some \<lparr>baddr = b, capacity = next_cap s a w, used = u\<rparr>"
        and cr: "created w' = created w @ [next_cap s a w]"
        and ah': "ahead w' = (case head w of None \<Rightarrow> [] | Some h \<Rightarrow> ahead w)"
      have "\<forall>c\<in>set (created w). c \<le> next_cap s a w"
      proof (cases "head w")
        case None
        then show ?thesis using inv by (simp add: grow_inv_def)
      next
        case (Some h)
        with inv have ne: "created w \<noteq> []" and l: "last (created w) = capacity h"
          and so: "sorted (created w)" by (simp_all add: grow_inv_def)
        from ne l have "capacity h \<in> set (created w)" by (metis last_in_set)
        with small cr have "unat (capacity h) < 2 ^ 63" by (simp add: list_all_iff)
        from next_cap_ge [OF Some this] have le: "capacity h \<le> next_cap s a w" .
        have "\<forall>c\<in>set (created w). c \<le> last (created w)"
          using so by (auto intro: sorted_le_last)
        with l le show ?thesis by auto
      qed
      then show ?thesis using inv hd cr ah' ah
        by (auto simp add: grow_inv_def sorted_append split: option.splits)
    qed
  qed
qed

lemma realloc_shape:
  assumes "zarena_realloc old os ns w = Some (p, w')"
  shows "w' = w \<and> old \<noteq> 0 \<and> ns \<le> os \<or>
         (\<exists>h. old \<noteq> 0 \<and> os < ns \<and> head w = Some h \<and>
              old + os = data h + used h \<and> used h + (ns - os) \<le> capacity h \<and> p = old \<and>
              w' = w\<lparr>head := Some (h\<lparr>used := used h + (ns - os)\<rparr>),
                      total_alloc := total_alloc w + (ns - os)\<rparr>) \<or>
         (\<exists>w1. (old = 0 \<or> os < ns \<and>
                  \<not> (case head w of None \<Rightarrow> False
                     | Some h \<Rightarrow> old + os = data h + used h \<and> used h + (ns - os) \<le> capacity h)) \<and>
               zarena_alloc_align ns ZARENA_MAX_ALIGN w = Some (p, w1) \<and>
               (w' = w1 \<or> w' = w1\<lparr>mem := memcpy (mem w1) p old os\<rparr>))"
  using assms
  by (auto simp add: zarena_realloc_def zarena_alloc_def Let_def
      split: option.splits if_splits)

lemma alloc_zero_shape:
  assumes "zarena_alloc_zero s w = Some (p, w')"
  shows "\<exists>w1. zarena_alloc_align s ZARENA_MAX_ALIGN w = Some (p, w1) \<and>
              (w' = w1 \<or> w' = w1\<lparr>mem := memset (mem w1) p 0 s\<rparr>)"
  using assms by (auto simp add: zarena_alloc_zero_def split: option.splits if_splits)

lemma grow_inv_mem [simp]: "grow_inv (w\<lparr>mem := m\<rparr>) = grow_inv w"
  by (auto simp add: grow_inv_def split: option.splits)

lemma arena_step_grow:
  assumes ne: "op \<noteq> Reset" and inv: "grow_inv w" and run: "arena_step op w = Some (p, w')"
    and small: "list_all (\<lambda>c. unat c < 2 ^ 63) (created w')"
  shows "grow_inv w'"
proof (cases op)
  case (Alloc s)
  with run have "zarena_alloc_align s ZARENA_MAX_ALIGN w = Some (p, w')"
    by (simp add: zarena_alloc_def)
  from zarena_alloc_align_grow [OF inv this small] show ?thesis .
next
  case (AllocAlign s a)
  with run have "zarena_alloc_align s a w = Some (p, w')" by simp
  from zarena_alloc_align_grow [OF inv this small] show ?thesis .
next
  case (AllocZero s)
  with run alloc_zero_shape [of s w p w'] obtain w1
    where 1: "zarena_alloc_align s ZARENA_MAX_ALIGN w = Some (p, w1)"
      and 2: "w' = w1 \<or> w' = w1\<lparr>mem := memset (mem w1) p 0 s\<rparr>" by auto
  from 2 small have "list_all (\<lambda>c. unat c < 2 ^ 63) (created w1)" by auto
  from zarena_alloc_align_grow [OF inv 1 this] 2 show ?thesis by auto
next
  case (Realloc old os ns)
  with run have r: "zarena_realloc old os ns w = Some (p, w')" by simp
  from realloc_shape [OF r]
  consider "w' = w"
    | h where "head w = Some h"
      "w' = w\<lparr>head := Some (h\<lparr>used := used h + (ns - os)\<rparr>), total_alloc := total_alloc w + (ns - os)\<rparr>"
    | w1 where "zarena_alloc_align ns ZARENA_MAX_ALIGN w = Some (p, w1)"
      "w' = w1 \<or> w' = w1\<lparr>mem := memcpy (mem w1) p old os\<rparr>"
    by blast
  then show ?thesis
  proof cases
    case 1
    then show ?thesis using inv by simp
  next
    case 2
    then show ?thesis using inv by (auto simp add: grow_inv_def split: option.splits)
  next
    case 3
    from 3(2) small have "list_all (\<lambda>c. unat c < 2 ^ 63) (created w1)" by auto
    from zarena_alloc_align_grow [OF inv 3(1) this] 3(2) show ?thesis by auto
  qed
next
  case Reset
  with ne show ?thesis by simp
qed

lemma alloc_align_created:
  "zarena_alloc_align s a w = Some (p, w') \<Longrightarrow> \<exists>xs. created w' = created w @ xs"
  by (auto simp add: zarena_alloc_align_def zarena_alloc_align_next_def zarena_alloc_align_new_def
      zarena_new_block_def Z_MALLOC_def heap_malloc_def Let_def
      split: option.splits if_splits list.splits prod.splits)

lemma arena_step_created:
  assumes "arena_step op w = Some (p, w')"
  shows "\<exists>xs. created w' = created w @ xs"
proof (cases op)
  case (Alloc s)
  with assms show ?thesis by (auto simp add: zarena_alloc_def dest: alloc_align_created)
next
  case (AllocAlign s a)
  with assms show ?thesis by (auto dest: alloc_align_created)
next
  case (AllocZero s)
  with assms alloc_zero_shape [of s w p w'] show ?thesis by (auto dest: alloc_align_created)
next
  case (Realloc old os ns)
  with assms realloc_shape [of old os ns w p w'] show ?thesis
    by (auto dest: alloc_align_created)
next
  case Reset
  with assms show ?thesis by (auto simp add: zarena_reset_def split: list.splits)
qed

lemma arena_run_created:
  "arena_run ops w = Some (ps, w') \<Longrightarrow> \<exists>xs. created w' = created w @ xs"
proof (induction ops arbitrary: w ps)
  case Nil
  then show ?case by simp
next
  case (Cons op ops)
  from Cons.prems obtain p w1 ps' where 1: "arena_step op w = Some (p, w1)"
    and 2: "arena_run ops w1 = Some (ps', w')" by (auto split: option.splits)
  from arena_step_created [OF 1] Cons.IH [OF 2] show ?case by auto
qed

lemma arena_run_grow:
  assumes "Reset \<notin> set ops" and "grow_inv w" and "arena_run ops w = Some (ps, w')"
    and "list_all (\<lambda>c. unat c < 2 ^ 63) (created w')"
  shows "grow_inv w'"
  using assms
proof (induction ops arbitrary: w ps)
  case Nil
  then show ?case by simp
next
  case (Cons op ops)
  from Cons.prems(3) obtain p w1 ps' where 1: "arena_step op w = Some (p, w1)"
    and 2: "arena_run ops w1 = Some (ps', w')" by (auto split: option.splits)
  from arena_run_created [OF 2] Cons.prems(4)
  have "list_all (\<lambda>c. unat c < 2 ^ 63) (created w1)" by auto
  moreover have "op \<noteq> Reset" using Cons.prems(1) by auto
  ultimately have "grow_inv w1" using Cons.prems(2) 1 by (auto intro: arena_step_grow)
  with Cons.IH [of w1 ps'] Cons.prems 2 show ?case by simp
qed

text \<open>
  Claim C3, as amended. On a freshly initialised arena, after every sequence of \<^verbatim>\<open>alloc\<close>,
  \<^verbatim>\<open>alloc_align\<close>, \<^verbatim>\<open>alloc_zero\<close> and \<^verbatim>\<open>realloc\<close> calls that contains no \<^verbatim>\<open>reset\<close>, the
  capacities of the blocks in creation order are non-decreasing, as long as every capacity
  is below \<open>2^63\<close> (so that doubling does not wrap around).
\<close>

theorem capacities_nondecreasing_without_reset:
  assumes "Reset \<notin> set ops" and "arena_run ops (fresh_arena f) = Some (ps, w)"
    and "list_all (\<lambda>c. unat c < 2 ^ 63) (created w)"
  shows "sorted (created w)"
proof -
  have "grow_inv (fresh_arena f)" by (simp add: grow_inv_def fresh_arena_def)
  from arena_run_grow [OF assms(1) this assms(2,3)] show ?thesis by (simp add: grow_inv_def)
qed

theorem capacities_nondecreasing_without_reset_witness:
  "Reset \<notin> set [Alloc 4000, Alloc 8000, AllocAlign 16000 16] \<and>
   map_option (\<lambda>r. created (snd r))
     (arena_run [Alloc 4000, Alloc 8000, AllocAlign 16000 16] (fresh_arena four_blocks))
     = Some [4096, 8192, 16384] \<and>
   list_all (\<lambda>c. unat c < 2 ^ 63) [4096, 8192, 16384 :: size_t] \<and>
   sorted [4096, 8192, 16384 :: size_t]"
proof -
  let ?ops = "[Alloc 4000, Alloc 8000, AllocAlign 16000 16]"
  have cr: "map_option (\<lambda>r. created (snd r)) (arena_run ?ops (fresh_arena four_blocks))
     = Some [4096, 8192, 16384]"
    by (simp add: arena_defs zarena_alloc_def four_blocks_def)
  then obtain ps w where run: "arena_run ?ops (fresh_arena four_blocks) = Some (ps, w)"
    and c: "created w = [4096, 8192, 16384]" by auto
  have nr: "Reset \<notin> set ?ops" by simp
  have sm: "list_all (\<lambda>c. unat c < 2 ^ 63) (created w)" unfolding c by simp
  from capacities_nondecreasing_without_reset [OF nr run sm] have "sorted (created w)" .
  with cr show ?thesis unfolding c by simp
qed

text \<open>
  Claim C3 as stated covers \<^verbatim>\<open>reset\<close>. After a reset the current block is the first,
  smallest one; a request that fits neither it nor its successor gets a new block of twice
  the \<^emph>\<open>current\<close> block's capacity (zalloc.h:277), which is less than the capacity of a block
  created earlier.
\<close>

theorem capacities_after_reset_counterexample:
  "map_option (\<lambda>r. (created (snd r), live (zheap (snd r))))
     (arena_run [Alloc 4000, Alloc 8000, Alloc 16000, Reset, Alloc 9000] (fresh_arena four_blocks))
     = Some ([4096, 8192, 16384, 9016],
             [(0x40000, 9040), (0x30000, 16408), (0x20000, 8216), (0x10000, 4120)]) \<and>
   heap_valid [(0x40000, 9040), (0x30000, 16408), (0x20000, 8216), (0x10000, 4120)] \<and>
   \<not> sorted [4096, 8192, 16384, 9016 :: size_t]"
  by (simp add: arena_defs zarena_alloc_def zarena_reset_def chain_def four_blocks_def
      heap_valid_def region_ok_def regions_disjoint_def)

section \<open>Arena: what \<open>total_alloc\<close> counts\<close>

lemma alloc_align_total:
  assumes "zarena_alloc_align s a w = Some (p, w')"
  shows "total_alloc w' = total_alloc w + (if s = 0 \<or> backend_failed w w' then 0 else s)"
  using assms
  by (auto simp add: zarena_alloc_align_def zarena_alloc_align_next_def zarena_alloc_align_new_def
      zarena_new_block_def Z_MALLOC_def heap_malloc_def Let_def backend_failed_def
      split: option.splits if_splits list.splits prod.splits)

lemma backend_failed_mem [simp]: "backend_failed w (w'\<lparr>mem := m\<rparr>) = backend_failed w w'"
  by (simp add: backend_failed_def)

lemma backend_failed_same [simp]: "\<not> backend_failed w w"
  by (simp add: backend_failed_def)

lemma arena_step_total:
  assumes "arena_step op w = Some (p, w')"
  shows "total_alloc w' = (if op = Reset then 0 else total_alloc w + granted op w w')"
proof (cases op)
  case (Alloc s)
  with assms show ?thesis by (auto simp add: zarena_alloc_def dest: alloc_align_total)
next
  case (AllocAlign s a)
  with assms show ?thesis by (auto dest: alloc_align_total)
next
  case (AllocZero s)
  with assms alloc_zero_shape [of s w p w'] show ?thesis by (auto dest: alloc_align_total)
next
  case (Realloc old os ns)
  with assms have r: "zarena_realloc old os ns w = Some (p, w')" by simp
  from realloc_shape [OF r] show ?thesis
    unfolding Realloc
    by (auto simp add: realloc_in_place_def backend_failed_def
        dest!: alloc_align_total split: option.splits)
next
  case Reset
  with assms show ?thesis by (auto simp add: zarena_reset_def split: list.splits)
qed

text \<open>
  Claim C4, as amended. After every sequence of arena operations \<open>total_alloc\<close> is the sum,
  modulo \<open>2^64\<close>, of what the operations since the last \<^verbatim>\<open>reset\<close> were granted: the requested
  size (without alignment padding) for each allocation that did not return early on size
  zero or on a backend failure; \<open>new_size - old_size\<close> for a \<^verbatim>\<open>realloc\<close> that grows in place;
  the whole \<open>new_size\<close> for a relocating \<^verbatim>\<open>realloc\<close>, the abandoned region staying counted;
  nothing for a \<^verbatim>\<open>realloc\<close> to a size not above \<open>old_size\<close>, the surplus staying counted.
  \<^verbatim>\<open>zarena_reset\<close> sets the counter to zero.
\<close>

theorem total_alloc_accounting:
  "arena_run ops w = Some (ps, w') \<Longrightarrow> total_alloc w' = accounted ops w (total_alloc w)"
proof (induction ops arbitrary: w ps)
  case Nil
  then show ?case by simp
next
  case (Cons op ops)
  from Cons.prems obtain p w1 ps' where 1: "arena_step op w = Some (p, w1)"
    and 2: "arena_run ops w1 = Some (ps', w')" by (auto split: option.splits)
  from Cons.IH [OF 2] arena_step_total [OF 1] 1 show ?case by simp
qed

theorem total_alloc_accounting_witness:
  "map_option (\<lambda>r. total_alloc (snd r))
     (arena_run [Alloc 10, Alloc 10, Realloc 0x10020 10 20, Realloc 0x10040 20 30,
                 Realloc 0x10040 30 5, Reset, Alloc 7] (fresh_arena (\<lambda>_. 0x10000)))
     = Some (accounted [Alloc 10, Alloc 10, Realloc 0x10020 10 20, Realloc 0x10040 20 30,
                        Realloc 0x10040 30 5, Reset, Alloc 7] (fresh_arena (\<lambda>_. 0x10000)) 0) \<and>
   accounted [Alloc 10, Alloc 10, Realloc 0x10020 10 20, Realloc 0x10040 20 30,
              Realloc 0x10040 30 5] (fresh_arena (\<lambda>_. 0x10000)) 0 = 50 \<and>
   accounted [Alloc 10, Alloc 10, Realloc 0x10020 10 20, Realloc 0x10040 20 30,
              Realloc 0x10040 30 5, Reset, Alloc 7] (fresh_arena (\<lambda>_. 0x10000)) 0 = 7"
proof -
  let ?ops = "[Alloc 10, Alloc 10, Realloc 0x10020 10 20, Realloc 0x10040 20 30,
               Realloc 0x10040 30 5, Reset, Alloc 7]"
  let ?w = "fresh_arena (\<lambda>_. 0x10000)"
  have "\<exists>ps w'. arena_run ?ops ?w = Some (ps, w')"
    by (simp add: arena_defs zarena_alloc_def zarena_realloc_def zarena_reset_def chain_def)
  then obtain ps w' where run: "arena_run ?ops ?w = Some (ps, w')" by blast
  from total_alloc_accounting [OF run]
  have "total_alloc w' = accounted ?ops ?w 0" by (simp add: fresh_arena_def)
  with run have 1: "map_option (\<lambda>r. total_alloc (snd r)) (arena_run ?ops ?w)
      = Some (accounted ?ops ?w 0)" by simp
  have 2: "accounted [Alloc 10, Alloc 10, Realloc 0x10020 10 20, Realloc 0x10040 20 30,
              Realloc 0x10040 30 5] ?w 0 = 50"
    by (simp add: arena_defs zarena_alloc_def zarena_realloc_def backend_failed_def
        realloc_in_place_def)
  have 3: "accounted ?ops ?w 0 = 7"
    by (simp add: arena_defs zarena_alloc_def zarena_realloc_def zarena_reset_def chain_def
        backend_failed_def realloc_in_place_def)
  from 1 2 3 show ?thesis by simp
qed

text \<open>
  Claim C4 as stated says that bytes shrunk away or abandoned by \<^verbatim>\<open>realloc\<close> are not
  counted. Shrinking a 10-byte allocation to 5 bytes leaves the counter at 10 with 5 bytes
  live; relocating a 10-byte allocation to 20 bytes next to another 10-byte allocation leaves
  the counter at 40 with 30 bytes live.
\<close>

theorem total_alloc_live_bytes_counterexample:
  "map_option (\<lambda>r. (fst r, unat (total_alloc (snd r)),
                     live_requested_bytes (ledger [Alloc 10, Realloc 0x10020 10 5] (fst r) [])))
     (arena_run [Alloc 10, Realloc 0x10020 10 5] (fresh_arena (\<lambda>_. 0x10000)))
     = Some ([0x10020, 0x10020], 10, 5) \<and>
   map_option (\<lambda>r. (fst r, unat (total_alloc (snd r)),
                     live_requested_bytes
                       (ledger [Alloc 10, Alloc 10, Realloc 0x10020 10 20] (fst r) [])))
     (arena_run [Alloc 10, Alloc 10, Realloc 0x10020 10 20] (fresh_arena (\<lambda>_. 0x10000)))
     = Some ([0x10020, 0x10030, 0x10040], 40, 30)"
  by (simp add: arena_defs zarena_alloc_def zarena_realloc_def live_requested_bytes_def)

section \<open>Pool: growth and its failure paths\<close>

lemma filter_fresh: "b \<notin> fst ` set rs \<Longrightarrow> filter (\<lambda>r. fst r \<noteq> b) rs = rs"
  by (induction rs) auto

lemma zpool_grow_malloc_fails:
  assumes "slab_answer w = 0"
  shows "zpool_grow w = backend_calls 1 w"
  using assms
  by (simp add: zpool_grow_def Z_MALLOC_def heap_malloc_def slab_answer_def backend_calls_def Let_def)

lemma zpool_grow_realloc_fails:
  assumes "slab_answer w \<noteq> 0" and "block_count w = block_cap w" and "array_answer w = 0"
  shows "zpool_grow w = backend_calls 2 (Z_FREE (slab_answer w) w)"
  using assms
  by (simp add: zpool_grow_def Z_MALLOC_def heap_malloc_def slab_answer_def array_answer_def
      backend_calls_def pool_realloc_def Z_REALLOC_def heap_realloc_def Z_FREE_def heap_free_def
      Let_def)

lemma Z_FREE_fresh:
  "b \<notin> fst ` set (live (zheap w)) \<Longrightarrow> Z_FREE b w = (w :: pool_world)"
  by (simp add: Z_FREE_def heap_free_def filter_fresh)

lemma zpool_grow_succeeds:
  assumes "slab_answer w \<noteq> 0" and "block_count w \<noteq> block_cap w \<or> array_answer w \<noteq> 0"
    and "slab_answer w \<noteq> blocks w"
  shows "pool_head (zpool_grow w) = slab_answer w"
    and "(slab_answer w, item_size w * count_per_block w) \<in> set (live (zheap (zpool_grow w)))"
  using assms
  by (auto simp add: zpool_grow_def Z_MALLOC_def heap_malloc_def slab_answer_def array_answer_def
      pool_realloc_def Z_REALLOC_def heap_realloc_def zpool_grow_link_def
      Let_def split: if_splits)

lemmas pool_defs = zpool_alloc_def zpool_grow_def zpool_grow_link_def pool_realloc_def zpool_init_def
  fresh_pool_def fresh_heap_def Z_MALLOC_def Z_REALLOC_def Z_FREE_def heap_malloc_def
  heap_realloc_def heap_free_def sizeof_ptr_def slab_answer_def array_answer_def
  backend_calls_def Let_def

text \<open>
  Claim C7. Let the free list be empty. When the backend fails the slab request,
  \<^verbatim>\<open>zpool_alloc\<close> returns the null pointer and the state is as before, one backend call
  later. When the slab request succeeds, the slab array is full and the backend fails to
  grow it, \<^verbatim>\<open>zpool_alloc\<close> returns the null pointer and the state is as before with the
  fresh slab released, two backend calls later: the pool's fields and the memory are
  unchanged, and so are the regions the backend has handed out, given that it answered the
  slab request with an address that was not in use. Otherwise the call returns the first
  item of a new slab of \<open>item_size * count_per_block\<close> bytes.
\<close>

theorem zpool_alloc_grow:
  assumes empty: "pool_head w = 0"
  shows "(slab_answer w = 0 \<longrightarrow> zpool_alloc w = (0, backend_calls 1 w)) \<and>
         (slab_answer w \<noteq> 0 \<and> block_count w = block_cap w \<and> array_answer w = 0 \<longrightarrow>
            zpool_alloc w = (0, backend_calls 2 (Z_FREE (slab_answer w) w)) \<and>
            (slab_answer w \<notin> fst ` set (live (zheap w)) \<longrightarrow> Z_FREE (slab_answer w) w = w)) \<and>
         (slab_answer w \<noteq> 0 \<and> slab_answer w \<noteq> blocks w \<and>
          (block_count w \<noteq> block_cap w \<or> array_answer w \<noteq> 0) \<longrightarrow>
            fst (zpool_alloc w) = slab_answer w \<and>
            (slab_answer w, item_size w * count_per_block w)
              \<in> set (live (zheap (snd (zpool_alloc w)))))"
proof (intro conjI impI)
  assume "slab_answer w = 0"
  then show "zpool_alloc w = (0, backend_calls 1 w)"
    using empty by (simp add: zpool_alloc_def zpool_grow_malloc_fails backend_calls_def)
next
  assume "slab_answer w \<noteq> 0 \<and> block_count w = block_cap w \<and> array_answer w = 0"
  then show "zpool_alloc w = (0, backend_calls 2 (Z_FREE (slab_answer w) w))"
    using empty
    by (simp add: zpool_alloc_def zpool_grow_realloc_fails backend_calls_def Z_FREE_def)
next
  assume "slab_answer w \<notin> fst ` set (live (zheap w))"
  then show "Z_FREE (slab_answer w) w = w" by (rule Z_FREE_fresh)
next
  assume a: "slab_answer w \<noteq> 0 \<and> slab_answer w \<noteq> blocks w \<and>
    (block_count w \<noteq> block_cap w \<or> array_answer w \<noteq> 0)"
  then show "fst (zpool_alloc w) = slab_answer w"
    using empty zpool_grow_succeeds(1) [of w] by (auto simp add: zpool_alloc_def Let_def)
  from a show "(slab_answer w, item_size w * count_per_block w)
      \<in> set (live (zheap (snd (zpool_alloc w))))"
    using empty zpool_grow_succeeds [of w] by (auto simp add: zpool_alloc_def Let_def)
qed

theorem zpool_alloc_grow_witness:
  "pool_head (fresh_pool (\<lambda>_. 0) 20 4) = 0 \<and>
   slab_answer (fresh_pool (\<lambda>_. 0) 20 4) = 0 \<and>
   zpool_alloc (fresh_pool (\<lambda>_. 0) 20 4) = (0, backend_calls 1 (fresh_pool (\<lambda>_. 0) 20 4)) \<and>
   slab_answer (fresh_pool (\<lambda>k. if k = 0 then 0x1000 else 0) 20 4) = 0x1000 \<and>
   array_answer (fresh_pool (\<lambda>k. if k = 0 then 0x1000 else 0) 20 4) = 0 \<and>
   zpool_alloc (fresh_pool (\<lambda>k. if k = 0 then 0x1000 else 0) 20 4)
     = (0, backend_calls 2 (fresh_pool (\<lambda>k. if k = 0 then 0x1000 else 0) 20 4)) \<and>
   fst (zpool_alloc (fresh_pool (\<lambda>k. if k = 0 then 0x1000 else 0x8000) 20 4)) = 0x1000 \<and>
   (0x1000, 96) \<in> set (live (zheap (snd
      (zpool_alloc (fresh_pool (\<lambda>k. if k = 0 then 0x1000 else 0x8000) 20 4)))))"
proof -
  let ?w1 = "fresh_pool (\<lambda>_. 0) 20 4"
  let ?w2 = "fresh_pool (\<lambda>k. if k = 0 then 0x1000 else 0) 20 4"
  let ?w3 = "fresh_pool (\<lambda>k. if k = 0 then 0x1000 else 0x8000) 20 4"
  have e1: "pool_head ?w1 = 0" and e2: "pool_head ?w2 = 0" and e3: "pool_head ?w3 = 0"
    by (simp_all add: fresh_pool_def zpool_init_def Let_def)
  have a1: "slab_answer ?w1 = 0"
    and a2: "slab_answer ?w2 = 0x1000" "array_answer ?w2 = 0" "block_count ?w2 = block_cap ?w2"
      "0x1000 \<notin> fst ` set (live (zheap ?w2))"
    and a3: "slab_answer ?w3 = 0x1000" "array_answer ?w3 = 0x8000" "blocks ?w3 = 0"
      "item_size ?w3 * count_per_block ?w3 = 96"
    by (simp_all add: fresh_pool_def zpool_init_def fresh_heap_def slab_answer_def
        array_answer_def sizeof_ptr_def Let_def)
  from zpool_alloc_grow [OF e1] a1
  have 1: "zpool_alloc ?w1 = (0, backend_calls 1 ?w1)" by simp
  from zpool_alloc_grow [OF e2] a2
  have 2: "zpool_alloc ?w2 = (0, backend_calls 2 ?w2)" by simp
  from zpool_alloc_grow [OF e3] a3
  have 3: "fst (zpool_alloc ?w3) = 0x1000"
    "(0x1000, 96) \<in> set (live (zheap (snd (zpool_alloc ?w3))))" by simp_all
  from e1 a1 1 a2 2 3 show ?thesis by simp
qed

section \<open>Debug guard: the live list under \<^verbatim>\<open>_zdebug_add\<close> and \<^verbatim>\<open>_zdebug_remove\<close>\<close>

lemma zdebug_remove_keeps:
  "h_magic (hdrs (zdebug_remove h w) a) = h_magic (hdrs w a) \<and>
   h_file (hdrs (zdebug_remove h w) a) = h_file (hdrs w a) \<and>
   h_line (hdrs (zdebug_remove h w) a) = h_line (hdrs w a) \<and>
   h_size (hdrs (zdebug_remove h w) a) = h_size (hdrs w a) \<and>
   bytes (zdebug_remove h w) = bytes w \<and> libc (zdebug_remove h w) = libc w \<and>
   zheap (zdebug_remove h w) = zheap w \<and> zlog (zdebug_remove h w) = zlog w"
  by (simp add: zdebug_remove_def Let_def)







lemma hpath_unique: "hpath m p xs 0 \<Longrightarrow> hpath m p ys 0 \<Longrightarrow> xs = ys"
proof (induction xs arbitrary: p ys)
  case Nil
  then show ?case by (cases ys) auto
next
  case (Cons x xs)
  then show ?case by (cases ys) auto
qed








lemma canary_indices:
  "[0 ..< 16] = [0, 1, 2, 3, 4, 5, 6, 7, 8, 9, 10, 11, 12, 13, 14, 15 :: nat]"
  by (simp add: upt_rec)

lemmas guard_defs = zdebug_malloc_loc_def zdebug_calloc_loc_def zdebug_realloc_loc_def zdebug_free_def
  zdebug_add_def zdebug_remove_def zdebug_set_canary_def zdebug_check_canary_def footer_def
  guard_realloc_def libc_malloc_def libc_realloc_def libc_free_def heap_malloc_def heap_realloc_def
  heap_free_def fresh_guard_def fresh_heap_def sizeof_zdebug_header_def ZDEBUG_MAGIC_ALIVE_def
  ZDEBUG_MAGIC_FREED_def ZDEBUG_CANARY_VAL_def ZDEBUG_CANARY_SIZE_def memset_def memcpy_def
  header_of_def fresh_answer_def Let_def canary_indices three_live_def three_blocks_def

section \<open>Debug guard: violations detected by \<^verbatim>\<open>zdebug_free\<close>\<close>

text \<open>
  Claim C6. Let \<open>ptr\<close> be non-null and \<open>h\<close> its header. If the magic of \<open>h\<close> is not ALIVE or
  the canary after the payload is damaged, \<^verbatim>\<open>zdebug_free\<close> aborts. The diagnostic is: double
  free, with the file and line stored in \<open>h\<close>, when the magic is FREED; invalid free when
  the magic is neither ALIVE nor FREED; buffer overflow, with the file and line stored in
  \<open>h\<close>, when the magic is ALIVE and the canary is damaged. A second \<^verbatim>\<open>zdebug_free\<close> of a
  pointer right after a successful one aborts with the double-free diagnostic that names the
  original allocation site.
\<close>

theorem zdebug_free_violations:
  assumes "ptr \<noteq> 0"
  shows "(h_magic (hdrs w (header_of ptr)) = ZDEBUG_MAGIC_FREED \<longrightarrow>
            zdebug_free ptr w =
              Inl (DoubleFree ptr (h_file (hdrs w (header_of ptr))) (h_line (hdrs w (header_of ptr))))) \<and>
         (h_magic (hdrs w (header_of ptr)) \<noteq> ZDEBUG_MAGIC_ALIVE \<and>
          h_magic (hdrs w (header_of ptr)) \<noteq> ZDEBUG_MAGIC_FREED \<longrightarrow>
            zdebug_free ptr w = Inl (InvalidFree ptr)) \<and>
         (h_magic (hdrs w (header_of ptr)) = ZDEBUG_MAGIC_ALIVE \<and> \<not> zdebug_check_canary (header_of ptr) w \<longrightarrow>
            zdebug_free ptr w =
              Inl (BufferOverflow ptr (h_file (hdrs w (header_of ptr))) (h_line (hdrs w (header_of ptr))))) \<and>
         (h_magic (hdrs w (header_of ptr)) \<noteq> ZDEBUG_MAGIC_ALIVE \<or> \<not> zdebug_check_canary (header_of ptr) w \<longrightarrow>
            isl (zdebug_free ptr w)) \<and>
         (\<forall>w'. zdebug_free ptr w = Inr w' \<longrightarrow>
            zdebug_free ptr w' =
              Inl (DoubleFree ptr (h_file (hdrs w (header_of ptr))) (h_line (hdrs w (header_of ptr)))))"
proof (intro conjI impI allI)
  assume "h_magic (hdrs w (header_of ptr)) = ZDEBUG_MAGIC_FREED"
  then show "zdebug_free ptr w =
      Inl (DoubleFree ptr (h_file (hdrs w (header_of ptr))) (h_line (hdrs w (header_of ptr))))"
    using assms
    by (simp add: zdebug_free_def header_of_def ZDEBUG_MAGIC_FREED_def
        ZDEBUG_MAGIC_ALIVE_def Let_def)
next
  assume "h_magic (hdrs w (header_of ptr)) \<noteq> ZDEBUG_MAGIC_ALIVE \<and>
          h_magic (hdrs w (header_of ptr)) \<noteq> ZDEBUG_MAGIC_FREED"
  then show "zdebug_free ptr w = Inl (InvalidFree ptr)"
    using assms by (simp add: zdebug_free_def header_of_def Let_def)
next
  assume "h_magic (hdrs w (header_of ptr)) = ZDEBUG_MAGIC_ALIVE \<and> \<not> zdebug_check_canary (header_of ptr) w"
  then show "zdebug_free ptr w =
      Inl (BufferOverflow ptr (h_file (hdrs w (header_of ptr))) (h_line (hdrs w (header_of ptr))))"
    using assms by (simp add: zdebug_free_def header_of_def Let_def)
next
  assume "h_magic (hdrs w (header_of ptr)) \<noteq> ZDEBUG_MAGIC_ALIVE \<or> \<not> zdebug_check_canary (header_of ptr) w"
  then show "isl (zdebug_free ptr w)"
    using assms by (auto simp add: zdebug_free_def header_of_def Let_def)
next
  fix w' assume "zdebug_free ptr w = Inr w'"
  then have w': "w' = libc_free (header_of ptr) (zdebug_remove (header_of ptr)
      (w\<lparr>hdrs := (hdrs w)(header_of ptr := (hdrs w (header_of ptr))\<lparr>h_magic := ZDEBUG_MAGIC_FREED\<rparr>)\<rparr>))"
    using assms
    by (auto simp add: zdebug_free_def header_of_def Let_def split: if_splits)
  have "h_magic (hdrs w' (header_of ptr)) = ZDEBUG_MAGIC_FREED"
    and "h_file (hdrs w' (header_of ptr)) = h_file (hdrs w (header_of ptr))"
    and "h_line (hdrs w' (header_of ptr)) = h_line (hdrs w (header_of ptr))"
    unfolding w' by (simp_all add: libc_free_def zdebug_remove_keeps)
  then show "zdebug_free ptr w' =
      Inl (DoubleFree ptr (h_file (hdrs w (header_of ptr))) (h_line (hdrs w (header_of ptr))))"
    using assms
    by (simp add: zdebug_free_def header_of_def ZDEBUG_MAGIC_FREED_def
        ZDEBUG_MAGIC_ALIVE_def Let_def)
qed

theorem zdebug_free_violations_witness:
  "(0x2028 :: addr) \<noteq> 0 \<and>
   \<not> isl (zdebug_free 0x2028 three_live) \<and>
   (case zdebug_free 0x2028 three_live of Inl msg \<Rightarrow> Inl msg | Inr w' \<Rightarrow> zdebug_free 0x2028 w')
     = Inl (DoubleFree 0x2028 ''b.c'' 2) \<and>
   zdebug_free 0x5028 three_live = Inl (InvalidFree 0x5028) \<and>
   zdebug_free 0x2028 (three_live\<lparr>bytes := (bytes three_live)(0x2030 := 0)\<rparr>)
     = Inl (BufferOverflow 0x2028 ''b.c'' 2)"
proof -
  have nz: "(0x2028 :: addr) \<noteq> 0" "(0x5028 :: addr) \<noteq> 0" by simp_all
  let ?over = "three_live\<lparr>bytes := (bytes three_live)(0x2030 := 0)\<rparr>"
  have ok: "\<exists>w'. zdebug_free 0x2028 three_live = Inr w'"
    by (simp add: guard_defs)
  then obtain w' where f: "zdebug_free 0x2028 three_live = Inr w'" by blast
  have site: "h_file (hdrs three_live (header_of 0x2028)) = ''b.c''"
    "h_line (hdrs three_live (header_of 0x2028)) = 2"
    "h_file (hdrs ?over (header_of 0x2028)) = ''b.c''"
    "h_line (hdrs ?over (header_of 0x2028)) = 2"
    by (simp_all add: guard_defs)
  have unknown: "h_magic (hdrs three_live (header_of 0x5028)) \<noteq> ZDEBUG_MAGIC_ALIVE \<and>
      h_magic (hdrs three_live (header_of 0x5028)) \<noteq> ZDEBUG_MAGIC_FREED"
    by (simp add: guard_defs)
  have damaged: "h_magic (hdrs ?over (header_of 0x2028)) = ZDEBUG_MAGIC_ALIVE \<and>
      \<not> zdebug_check_canary (header_of 0x2028) ?over"
    by (simp add: guard_defs)
  from zdebug_free_violations [OF nz(1), of three_live] f site
  have 1: "zdebug_free 0x2028 w' = Inl (DoubleFree 0x2028 ''b.c'' 2)" by simp
  from zdebug_free_violations [OF nz(2), of three_live] unknown
  have 2: "zdebug_free 0x5028 three_live = Inl (InvalidFree 0x5028)" by simp
  from zdebug_free_violations [OF nz(1), of ?over] damaged site
  have 3: "zdebug_free 0x2028 ?over = Inl (BufferOverflow 0x2028 ''b.c'' 2)" by simp
  from f 1 2 3 show ?thesis by simp
qed

section \<open>Debug guard: a failed resize\<close>



section \<open>Debug guard: the live list along a run\<close>

lemma plus40_inj: "(a :: addr) + sizeof_zdebug_header = b + sizeof_zdebug_header \<longleftrightarrow> a = b"
  by simp

lemma header_of_plus [simp]: "header_of (h + sizeof_zdebug_header) = h"
  by (simp add: header_of_def)

lemma plus_header_of [simp]: "header_of p + sizeof_zdebug_header = p"
  by (simp add: header_of_def)





lemma guard_inv_bytes [simp]: "guard_inv (w\<lparr>bytes := b\<rparr>) l xs = guard_inv w l xs"
  by (simp add: guard_inv_def live_list_def)










section \<open>Debug guard: the size computed by \<^verbatim>\<open>zdebug_calloc_loc\<close>\<close>





section \<open>Which backend each component calls\<close>

text \<open>
  The arena and the pool reach the backend only through the macros \<^verbatim>\<open>Z_MALLOC\<close>,
  \<^verbatim>\<open>Z_REALLOC\<close> and \<^verbatim>\<open>Z_FREE\<close> (zalloc.h:197, 216, 364, 366, 373, 379, 382); the debug guard
  calls \<^verbatim>\<open>malloc\<close>, \<^verbatim>\<open>realloc\<close> and \<^verbatim>\<open>free\<close> by name (zalloc.h:486, 535, 578). The lemmas below
  state, operation by operation, that the heap a component does not call has no influence on
  the operation and is handed on as it was.
\<close>

subsection \<open>The debug guard and the injected backend\<close>

lemma zdebug_check_canary_zheap [simp]:
  "zdebug_check_canary h (w\<lparr>zheap := z\<rparr>) = zdebug_check_canary h w"
  by (simp add: zdebug_check_canary_def footer_def)

lemma zdebug_malloc_zheap:
  "zdebug_malloc_loc sz file line (w\<lparr>zheap := z\<rparr>) =
     (fst (zdebug_malloc_loc sz file line w), (snd (zdebug_malloc_loc sz file line w))\<lparr>zheap := z\<rparr>)"
  by (cases w)
     (simp add: zdebug_malloc_loc_def libc_malloc_def heap_malloc_def zdebug_set_canary_def
        footer_def zdebug_add_def Let_def)

lemma zdebug_calloc_zheap:
  "zdebug_calloc_loc n sz file line (w\<lparr>zheap := z\<rparr>) =
     (fst (zdebug_calloc_loc n sz file line w), (snd (zdebug_calloc_loc n sz file line w))\<lparr>zheap := z\<rparr>)"
  by (simp add: zdebug_calloc_loc_def zdebug_malloc_zheap split: prod.splits)

lemma zdebug_free_zheap:
  "zdebug_free ptr (w\<lparr>zheap := z\<rparr>) = map_sum id (\<lambda>w'. w'\<lparr>zheap := z\<rparr>) (zdebug_free ptr w)"
  by (cases w)
     (simp add: zdebug_free_def libc_free_def zdebug_remove_def zdebug_check_canary_def
        footer_def Let_def)

lemma guard_realloc_zheap:
  "guard_realloc h t (w\<lparr>zheap := z\<rparr>) =
     (fst (guard_realloc h t w), (snd (guard_realloc h t w))\<lparr>zheap := z\<rparr>)"
  by (cases w) (simp add: guard_realloc_def libc_realloc_def heap_realloc_def Let_def)

lemma zdebug_add_zheap: "zdebug_add h (w\<lparr>zheap := z\<rparr>) = (zdebug_add h w)\<lparr>zheap := z\<rparr>"
  by (cases w) (simp add: zdebug_add_def Let_def)

lemma zdebug_remove_zheap: "zdebug_remove h (w\<lparr>zheap := z\<rparr>) = (zdebug_remove h w)\<lparr>zheap := z\<rparr>"
  by (cases w) (simp add: zdebug_remove_def Let_def)

lemma zdebug_set_canary_zheap:
  "zdebug_set_canary h (w\<lparr>zheap := z\<rparr>) = (zdebug_set_canary h w)\<lparr>zheap := z\<rparr>"
  by (cases w) (simp add: zdebug_set_canary_def footer_def)

lemma hdrs_upd_zheap:
  "(w\<lparr>zheap := z\<rparr>)\<lparr>hdrs := m\<rparr> = (w\<lparr>hdrs := m\<rparr>)\<lparr>zheap := z\<rparr>"
  by simp

lemma zdebug_realloc_zheap:
  "zdebug_realloc_loc ptr sz file line (w\<lparr>zheap := z\<rparr>) =
     map_sum id (\<lambda>r. (fst r, (snd r)\<lparr>zheap := z\<rparr>)) (zdebug_realloc_loc ptr sz file line w)"
proof -
  define h where "h = ptr - sizeof_zdebug_header"
  define t where "t = sizeof_zdebug_header + sz + ZDEBUG_CANARY_SIZE"
  define w1 where "w1 = zdebug_remove h w"
  obtain nh w2 where gr: "guard_realloc h t w1 = (nh, w2)" by (cases "guard_realloc h t w1")
  have gr': "guard_realloc h t (zdebug_remove h (w\<lparr>zheap := z\<rparr>)) = (nh, w2\<lparr>zheap := z\<rparr>)"
    by (simp only: zdebug_remove_zheap guard_realloc_zheap w1_def [symmetric] gr fst_conv snd_conv)
  define w3 where "w3 = w2\<lparr>hdrs := (hdrs w2)(nh := (hdrs w2 nh)
                                    \<lparr>h_size := sz, h_file := file, h_line := line\<rparr>)\<rparr>"
  have tail: "zdebug_add nh (zdebug_set_canary nh
        (w2\<lparr>zheap := z, hdrs := (hdrs w2)(nh := (hdrs w2 nh)
                                    \<lparr>h_size := sz, h_file := file, h_line := line\<rparr>)\<rparr>))
      = (zdebug_add nh (zdebug_set_canary nh w3))\<lparr>zheap := z\<rparr>"
    by (cases w2) (simp add: w3_def zdebug_add_def zdebug_set_canary_def footer_def Let_def)
  have lhs: "zdebug_realloc_loc ptr sz file line (w\<lparr>zheap := z\<rparr>) =
     (if ptr = 0 then Inr (zdebug_malloc_loc sz file line (w\<lparr>zheap := z\<rparr>))
      else if sz = 0
      then (case zdebug_free ptr (w\<lparr>zheap := z\<rparr>) of Inl msg \<Rightarrow> Inl msg | Inr w1 \<Rightarrow> Inr (0, w1))
      else if h_magic (hdrs w h) \<noteq> ZDEBUG_MAGIC_ALIVE then Inl (BadRealloc ptr file line)
      else if \<not> zdebug_check_canary h w
      then Inl (Corruption ptr (h_file (hdrs w h)) (h_line (hdrs w h)))
      else if nh = 0 then Inr (0, (zdebug_add h w2)\<lparr>zheap := z\<rparr>)
      else Inr (nh + sizeof_zdebug_header, (zdebug_add nh (zdebug_set_canary nh w3))\<lparr>zheap := z\<rparr>))"
    unfolding zdebug_realloc_loc_def Let_def h_def [symmetric] t_def [symmetric]
    by (simp add: gr' tail zdebug_add_zheap del: fun_upd_apply)
  have rhs: "zdebug_realloc_loc ptr sz file line w =
     (if ptr = 0 then Inr (zdebug_malloc_loc sz file line w)
      else if sz = 0
      then (case zdebug_free ptr w of Inl msg \<Rightarrow> Inl msg | Inr w1 \<Rightarrow> Inr (0, w1))
      else if h_magic (hdrs w h) \<noteq> ZDEBUG_MAGIC_ALIVE then Inl (BadRealloc ptr file line)
      else if \<not> zdebug_check_canary h w
      then Inl (Corruption ptr (h_file (hdrs w h)) (h_line (hdrs w h)))
      else if nh = 0 then Inr (0, zdebug_add h w2)
      else Inr (nh + sizeof_zdebug_header, zdebug_add nh (zdebug_set_canary nh w3)))"
    unfolding zdebug_realloc_loc_def Let_def h_def [symmetric] t_def [symmetric]
    by (simp add: w1_def [symmetric] gr w3_def)
  show ?thesis
    unfolding lhs rhs
    by (simp add: zdebug_malloc_zheap zdebug_free_zheap split: sum.splits)
qed

subsection \<open>The arena and the C library\<close>

lemma Z_MALLOC_libc:
  "Z_MALLOC n (w\<lparr>libc := c\<rparr>) = (fst (Z_MALLOC n w), (snd (Z_MALLOC n w))\<lparr>libc := c\<rparr>)"
  by (simp add: Z_MALLOC_def heap_malloc_def Let_def)

lemma Z_FREE_libc: "Z_FREE b (w\<lparr>libc := c\<rparr>) = (Z_FREE b w)\<lparr>libc := c\<rparr>"
  by (simp add: Z_FREE_def)

lemma alloc_align_libc:
  "zarena_alloc_align s a (w\<lparr>libc := c\<rparr>) =
     map_option (\<lambda>r. (fst r, (snd r)\<lparr>libc := c\<rparr>)) (zarena_alloc_align s a w)"
  by (cases w)
     (simp add: zarena_alloc_align_def zarena_alloc_align_next_def zarena_alloc_align_new_def
        zarena_new_block_def Z_MALLOC_def heap_malloc_def Let_def
        split: option.splits list.splits prod.splits)

lemma arena_step_libc:
  "arena_step op (w\<lparr>libc := c\<rparr>) =
     map_option (\<lambda>r. (fst r, (snd r)\<lparr>libc := c\<rparr>)) (arena_step op w)"
proof (cases op)
  case (Alloc s)
  then show ?thesis by (simp add: zarena_alloc_def alloc_align_libc)
next
  case (AllocAlign s a)
  then show ?thesis by (simp add: alloc_align_libc)
next
  case (AllocZero s)
  then show ?thesis
    by (auto simp add: zarena_alloc_zero_def alloc_align_libc split: option.splits)
next
  case (Realloc old os ns)
  then show ?thesis
    by (auto simp add: zarena_realloc_def zarena_alloc_def alloc_align_libc Let_def
        split: option.splits)
next
  case Reset
  then show ?thesis by (simp add: zarena_reset_def chain_def split: list.splits)
qed

lemma chain_libc: "chain (w\<lparr>libc := c\<rparr>) = chain w"
  by (simp add: chain_def)

lemma fold_Z_FREE_libc:
  "fold (\<lambda>b. Z_FREE (g b)) xs (w\<lparr>libc := c\<rparr>) = (fold (\<lambda>b. Z_FREE (g b)) xs w)\<lparr>libc := c\<rparr>"
  by (induction xs arbitrary: w) (simp_all add: Z_FREE_libc)

lemma zarena_free_libc: "zarena_free (w\<lparr>libc := c\<rparr>) = (zarena_free w)\<lparr>libc := c\<rparr>"
  by (simp add: zarena_free_def chain_libc fold_Z_FREE_libc)

subsection \<open>The pool and the C library\<close>

lemma zpool_grow_link_libc:
  "zpool_grow_link b (w\<lparr>libc := c\<rparr>) = (zpool_grow_link b w)\<lparr>libc := c\<rparr>"
  by (cases w) (simp add: zpool_grow_link_def Let_def)

lemma zpool_grow_link_libc2:
  "zpool_grow_link b (w\<lparr>libc := c, blocks := x, block_cap := y\<rparr>) =
     (zpool_grow_link b (w\<lparr>blocks := x, block_cap := y\<rparr>))\<lparr>libc := c\<rparr>"
  by (cases w) (simp add: zpool_grow_link_def Let_def)

lemma pool_realloc_libc:
  "pool_realloc q n (w\<lparr>libc := c\<rparr>) =
     (fst (pool_realloc q n w), (snd (pool_realloc q n w))\<lparr>libc := c\<rparr>)"
  by (cases w) (simp add: pool_realloc_def Z_REALLOC_def heap_realloc_def Let_def)

lemma zpool_grow_libc:
  "zpool_grow (w\<lparr>libc := c\<rparr>) = (zpool_grow w)\<lparr>libc := c\<rparr>"
  by (simp add: zpool_grow_def Let_def case_prod_beta Z_MALLOC_libc pool_realloc_libc Z_FREE_libc
      zpool_grow_link_libc zpool_grow_link_libc2)

lemma zpool_alloc_libc:
  "zpool_alloc (w\<lparr>libc := c\<rparr>) = (fst (zpool_alloc w), (snd (zpool_alloc w))\<lparr>libc := c\<rparr>)"
  by (simp add: zpool_alloc_def zpool_grow_libc Let_def)

lemma zpool_recycle_libc: "zpool_recycle p (w\<lparr>libc := c\<rparr>) = (zpool_recycle p w)\<lparr>libc := c\<rparr>"
  by (simp add: zpool_recycle_def)

lemma zpool_free_libc: "zpool_free (w\<lparr>libc := c\<rparr>) = (zpool_free w)\<lparr>libc := c\<rparr>"
  by (simp add: zpool_free_def Let_def fold_Z_FREE_libc Z_FREE_libc)

subsection \<open>Every operation of the three components\<close>

lemma guard_step_zheap:
  "guard_step op (w\<lparr>zheap := z\<rparr>) =
     map_sum id (\<lambda>r. (fst r, (snd r)\<lparr>zheap := z\<rparr>)) (guard_step op w)"
proof (cases op)
  case (GMalloc sz fl ln)
  then show ?thesis by (simp add: zdebug_malloc_zheap)
next
  case (GCalloc n sz fl ln)
  then show ?thesis by (simp add: zdebug_calloc_zheap)
next
  case (GRealloc ptr sz fl ln)
  then show ?thesis by (simp add: zdebug_realloc_zheap)
next
  case (GFree ptr)
  then show ?thesis by (simp add: zdebug_free_zheap split: sum.splits)
qed

text \<open>
  Claim C5, as amended. The arena and the pool perform every backend operation through the
  injected primitives \<^verbatim>\<open>Z_MALLOC\<close>, \<^verbatim>\<open>Z_REALLOC\<close>, \<^verbatim>\<open>Z_FREE\<close>: whatever the state \<open>c\<close> of the C
  library's heap, every arena operation (alloc, alloc_align, alloc_zero, realloc, reset,
  free) and every pool operation (alloc, recycle, free) returns the same result, makes the
  same changes to the component and to the injected backend, and leaves the C library's heap
  as it was. The debug guard performs every backend operation through the C library's
  \<^verbatim>\<open>malloc\<close>, \<^verbatim>\<open>realloc\<close>, \<^verbatim>\<open>free\<close>: whatever the state \<open>z\<close> of the injected backend, every guard
  operation (malloc, calloc, realloc, free) returns the same result or the same diagnostic,
  makes the same changes to the guard and to the C library's heap, and leaves the injected
  backend as it was. So substituting the injected backend changes the primitive behind the
  arena and the pool, and leaves the debug guard on the C library.
\<close>

theorem backend_routing:
  "arena_step aop (aw\<lparr>libc := c\<rparr>) =
     map_option (\<lambda>r. (fst r, (snd r)\<lparr>libc := c\<rparr>)) (arena_step aop aw) \<and>
   zarena_free (aw\<lparr>libc := c\<rparr>) = (zarena_free aw)\<lparr>libc := c\<rparr> \<and>
   zpool_alloc (pw\<lparr>libc := c\<rparr>) = (fst (zpool_alloc pw), (snd (zpool_alloc pw))\<lparr>libc := c\<rparr>) \<and>
   zpool_recycle p (pw\<lparr>libc := c\<rparr>) = (zpool_recycle p pw)\<lparr>libc := c\<rparr> \<and>
   zpool_free (pw\<lparr>libc := c\<rparr>) = (zpool_free pw)\<lparr>libc := c\<rparr> \<and>
   guard_step gop (gw\<lparr>zheap := z\<rparr>) =
     map_sum id (\<lambda>r. (fst r, (snd r)\<lparr>zheap := z\<rparr>)) (guard_step gop gw)"
  by (simp only: arena_step_libc zarena_free_libc zpool_alloc_libc zpool_recycle_libc
      zpool_free_libc guard_step_zheap simp_thms)

theorem backend_routing_witness:
  "map_option fst (arena_step (Alloc 100)
      ((fresh_arena (\<lambda>_. 0x1000))\<lparr>libc := fresh_heap (\<lambda>_. 0x9000)\<rparr>)) = Some 0x1020 \<and>
   fst (zpool_alloc ((fresh_pool (\<lambda>k. if k = 0 then 0x1000 else 0x8000) 20 4)
      \<lparr>libc := fresh_heap (\<lambda>_. 0x9000)\<rparr>)) = 0x1000 \<and>
   map_sum id fst (guard_step (GMalloc 8 ''a.c'' 1)
      ((fresh_guard (\<lambda>_. 0x1000) (\<lambda>_. 0))\<lparr>zheap := fresh_heap (\<lambda>_. 0x9000)\<rparr>)) = Inr 0x1028"
proof -
  have a: "map_option fst (arena_step (Alloc 100) (fresh_arena (\<lambda>_. 0x1000))) = Some 0x1020"
    by (simp add: zarena_alloc_def zarena_alloc_align_def zarena_alloc_align_next_def zarena_alloc_align_new_def
  zarena_new_block_def zarena_align_ptr_def Z_MALLOC_def heap_malloc_def fresh_arena_def fresh_heap_def
  data_def sizeof_zarena_block_def ZARENA_DEFAULT_BLOCK_SIZE_def ZARENA_MAX_ALIGN_def Let_def)
  have p: "fst (zpool_alloc (fresh_pool (\<lambda>k. if k = 0 then 0x1000 else 0x8000) 20 4)) = 0x1000"
    by (simp add: zpool_alloc_def zpool_grow_def zpool_grow_link_def pool_realloc_def zpool_init_def
  fresh_pool_def fresh_heap_def Z_MALLOC_def Z_REALLOC_def Z_FREE_def heap_malloc_def
  heap_realloc_def heap_free_def sizeof_ptr_def Let_def)
  have g: "map_sum id fst (guard_step (GMalloc 8 ''a.c'' 1) (fresh_guard (\<lambda>_. 0x1000) (\<lambda>_. 0)))
             = Inr 0x1028"
    by (simp add: zdebug_malloc_loc_def libc_malloc_def heap_malloc_def zdebug_set_canary_def
      zdebug_add_def footer_def fresh_guard_def fresh_heap_def sizeof_zdebug_header_def
      ZDEBUG_CANARY_SIZE_def Let_def)
  from backend_routing [where aop = "Alloc 100" and aw = "fresh_arena (\<lambda>_. 0x1000)"
      and c = "fresh_heap (\<lambda>_. 0x9000)"
      and pw = "fresh_pool (\<lambda>k. if k = 0 then 0x1000 else 0x8000) 20 4" and p = 0
      and gop = "GMalloc 8 ''a.c'' 1" and gw = "fresh_guard (\<lambda>_. 0x1000) (\<lambda>_. 0)"
      and z = "fresh_heap (\<lambda>_. 0x9000)"] a p g
  show ?thesis
    by (auto simp add: option.map_comp sum.map_comp comp_def)
qed

text \<open>
  Claim C5 as stated says that the debug guard, too, performs every backend operation through
  the injected primitive. With an injected backend that fails every request and a C library
  that answers \<open>0x1000\<close>, \<^verbatim>\<open>zdebug_malloc(8)\<close> succeeds: the 64 bytes of header, payload and
  canary are taken from the C library, and the injected backend is never called.
\<close>

theorem guard_bypasses_injected_backend_counterexample:
  "answers (zheap (fresh_guard (\<lambda>_. 0x1000) (\<lambda>_. 0))) = (\<lambda>_. 0) \<and>
   fst (zdebug_malloc_loc 8 ''a.c'' 1 (fresh_guard (\<lambda>_. 0x1000) (\<lambda>_. 0))) = 0x1028 \<and>
   calls (zheap (snd (zdebug_malloc_loc 8 ''a.c'' 1 (fresh_guard (\<lambda>_. 0x1000) (\<lambda>_. 0))))) = 0 \<and>
   live (zheap (snd (zdebug_malloc_loc 8 ''a.c'' 1 (fresh_guard (\<lambda>_. 0x1000) (\<lambda>_. 0))))) = [] \<and>
   calls (libc (snd (zdebug_malloc_loc 8 ''a.c'' 1 (fresh_guard (\<lambda>_. 0x1000) (\<lambda>_. 0))))) = 1 \<and>
   live (libc (snd (zdebug_malloc_loc 8 ''a.c'' 1 (fresh_guard (\<lambda>_. 0x1000) (\<lambda>_. 0)))))
     = [(0x1000, 64)]"
  by (simp add: zdebug_malloc_loc_def libc_malloc_def heap_malloc_def zdebug_set_canary_def
      zdebug_add_def footer_def fresh_guard_def fresh_heap_def sizeof_zdebug_header_def
      ZDEBUG_CANARY_SIZE_def Let_def)

end
